theory Spec2Isabelle
  imports Complex_Main "HOL-Library.Monad_Syntax"
begin

section \<open>grid\_gen: printable grid paper as an SVG document\<close>

text \<open>
  A shallow embedding of \<^verbatim>\<open>src/grid_gen.py\<close>. Python's \<^verbatim>\<open>float\<close> is modelled by
  \<^typ>\<open>real\<close>: rounding, infinities and NaN are abstracted away, so every arithmetic
  fact below is about the exact values the program approximates. A \<^verbatim>\<open>while\<close> loop is a
  \<^theory_text>\<open>partial_function\<close> in the option monad: \<open>None\<close> is a run that never returns.
\<close>

subsection \<open>The drawing primitives consumed from the \<^verbatim>\<open>svg\<close> package\<close>

text \<open>
  Only the constructors and keyword arguments that the program uses are modelled; a
  keyword the program leaves out at some call site is \<open>None\<close>.
\<close>

datatype path_cmd = M real real | L real real | Z

datatype transform = Translate real real

datatype element =
    Line real real real real string real "(real \<times> real) option"
      \<comment> \<open>\<open>x1 y1 x2 y2 stroke stroke_width stroke_dasharray\<close>; the dash string
          \<^verbatim>\<open>f"{a},{b}"\<close> is kept as the pair \<open>(a, b)\<close>\<close>
  | Circle real real real string
      \<comment> \<open>\<open>cx cy r fill\<close>\<close>
  | Rect real real real real "string option"
      \<comment> \<open>\<open>x y width height fill\<close>\<close>
  | Path "path_cmd list" string real string
      \<comment> \<open>\<open>d stroke stroke_width fill\<close>\<close>
  | ClipPath string "element list"
      \<comment> \<open>\<open>id elements\<close>\<close>
  | Defs "element list"
  | G "transform list option" "string option" "element list"
      \<comment> \<open>\<open>transform clip_path elements\<close>\<close>

record SVG =
  svg_width :: real
  svg_height :: real
  svg_viewBox :: "real \<times> real \<times> real \<times> real"
  svg_elements :: "element list"

subsection \<open>Unit conversion\<close>

definition PAGE_W_MM :: real where
  "PAGE_W_MM = 215.9"

definition PAGE_H_MM :: real where
  "PAGE_H_MM = 279.4"

definition MM_PER_PT :: real where
  "MM_PER_PT = 25.4 / 72"

definition mm :: "real \<Rightarrow> real" where
  "mm val = val / MM_PER_PT"

text \<open>\<^verbatim>\<open>math.radians\<close>.\<close>

definition radians :: "real \<Rightarrow> real" where
  "radians d = d * pi / 180"

subsection \<open>Pattern generators\<close>

text \<open>
  The loop \<^verbatim>\<open>while v <= bound: elements.append(mk(v)); v += step\<close>, which seven of
  the ten loops of the generators are instances of. \<open>elements\<close> is the list the loop
  appends to, returned when the loop is left.
\<close>

partial_function (option) while_le ::
  "real \<Rightarrow> real \<Rightarrow> real \<Rightarrow> (real \<Rightarrow> 'a) \<Rightarrow> 'a list \<Rightarrow> 'a list option" where
  "while_le v bound step mk elements =
     (if v \<le> bound then while_le (v + step) bound step mk (elements @ [mk v])
      else Some elements)"

type_synonym draw_fn = "real \<Rightarrow> real \<Rightarrow> real \<Rightarrow> real \<Rightarrow> string \<Rightarrow> element list option"

definition draw_grid :: draw_fn where
  "draw_grid w h size' line_width color =
     (let step = mm size';
          sw = mm line_width;
          pw = mm w; ph = mm h
      in do {
        elements \<leftarrow> while_le 0 (pw + 0.01) step (\<lambda>x. Line x 0 x ph color sw None) [];
        while_le 0 (ph + 0.01) step (\<lambda>y. Line 0 y pw y color sw None) elements
      })"

text \<open>The outer loop of \<^verbatim>\<open>draw_dots\<close>; its body runs the inner loop on the same list.\<close>

partial_function (option) draw_dots_loop ::
  "real \<Rightarrow> real \<Rightarrow> real \<Rightarrow> real \<Rightarrow> real \<Rightarrow> string \<Rightarrow> element list \<Rightarrow> element list option" where
  "draw_dots_loop x pw ph step r color elements =
     (if x \<le> pw + 0.01 then do {
        elements' \<leftarrow> while_le 0 (ph + 0.01) step (\<lambda>y. Circle x y r color) elements;
        draw_dots_loop (x + step) pw ph step r color elements'
      }
      else Some elements)"

definition draw_dots :: draw_fn where
  "draw_dots w h size' line_width color =
     (let step = mm size';
          r = mm line_width / 2;
          pw = mm w; ph = mm h
      in draw_dots_loop 0 pw ph step r color [])"

definition draw_lined :: draw_fn where
  "draw_lined w h size' line_width color =
     (let step = mm size';
          sw = mm line_width;
          pw = mm w; ph = mm h
      in while_le step (ph + 0.01) step (\<lambda>y. Line 0 y pw y color sw None) [])"

text \<open>
  The body of the inner loop of \<^verbatim>\<open>draw_hex\<close>: the six vertices of the hexagon centred
  at \<open>(cx, cy)\<close>, then one move-to, a line-to for each of \<^verbatim>\<open>pts[1:]\<close>, and a close.
\<close>

definition hex_pts :: "real \<Rightarrow> real \<Rightarrow> real \<Rightarrow> (real \<times> real) list" where
  "hex_pts cx cy s =
     map (\<lambda>i. let angle = radians (60 * real i)
               in (cx + s * cos angle, cy + s * sin angle)) [0..<6]"

definition hex_cmds :: "real \<Rightarrow> real \<Rightarrow> real \<Rightarrow> path_cmd list" where
  "hex_cmds cx cy s =
     (let pts = hex_pts cx cy s
      in [M (fst (pts ! 0)) (snd (pts ! 0))] @ map (\<lambda>(px, py). L px py) (tl pts) @ [Z])"

partial_function (option) draw_hex_rows ::
  "real \<Rightarrow> real \<Rightarrow> real \<Rightarrow> real \<Rightarrow> real \<Rightarrow> real \<Rightarrow> path_cmd list \<Rightarrow> path_cmd list option" where
  "draw_hex_rows cy cx s hex_h ph row_step path_data =
     (if cy - hex_h / 2 \<le> ph
      then draw_hex_rows (cy + row_step) cx s hex_h ph row_step (path_data @ hex_cmds cx cy s)
      else Some path_data)"

partial_function (option) draw_hex_cols ::
  "nat \<Rightarrow> real \<Rightarrow> real \<Rightarrow> real \<Rightarrow> real \<Rightarrow> real \<Rightarrow> real \<Rightarrow> real \<Rightarrow> path_cmd list
     \<Rightarrow> path_cmd list option" where
  "draw_hex_cols col cx s hex_h pw ph col_step row_step path_data =
     (if cx - s \<le> pw then do {
        let row_offset = (if col mod 2 \<noteq> 0 then hex_h / 2 else 0);
        path_data' \<leftarrow> draw_hex_rows row_offset cx s hex_h ph row_step path_data;
        draw_hex_cols (col + 1) (cx + col_step) s hex_h pw ph col_step row_step path_data'
      }
      else Some path_data)"

definition draw_hex :: draw_fn where
  "draw_hex w h size' line_width color =
     (let s = mm size';
          sw = mm line_width;
          pw = mm w; ph = mm h;
          hex_w = s * 2;
          hex_h = s * sqrt 3;
          col_step = hex_w * 0.75;
          row_step = hex_h
      in do {
        path_data \<leftarrow> draw_hex_cols 0 0 s hex_h pw ph col_step row_step [];
        Some [Path path_data color sw ''none'']
      })"

definition draw_iso :: draw_fn where
  "draw_iso w h size' line_width color =
     (let sw = mm line_width;
          pw = mm w; ph = mm h;
          spacing = mm size'
      in do {
        elements \<leftarrow> while_le 0 (ph + 0.01) spacing (\<lambda>y. Line 0 y pw y color sw None) [];
        let dx = spacing / sin (radians 60);
        let dy_per_dx = tan (radians 60);
        let start = - ph / dy_per_dx;
        elements \<leftarrow> while_le start pw dx
                      (\<lambda>x. Line x ph (x + ph / dy_per_dx) 0 color sw None) elements;
        while_le start pw dx (\<lambda>x. Line x 0 (x + ph / dy_per_dx) ph color sw None) elements
      })"

text \<open>The dictionary \<^verbatim>\<open>DRAW_FNS\<close>; a missing key is \<open>None\<close>.\<close>

definition DRAW_FNS :: "string \<rightharpoonup> draw_fn" where
  "DRAW_FNS =
     [''grid'' \<mapsto> draw_grid,
      ''dots'' \<mapsto> draw_dots,
      ''hex'' \<mapsto> draw_hex,
      ''lined'' \<mapsto> draw_lined,
      ''iso'' \<mapsto> draw_iso]"

subsection \<open>Panel composition\<close>

definition make_panel ::
  "draw_fn \<Rightarrow> real \<Rightarrow> real \<Rightarrow> real \<Rightarrow> real \<Rightarrow> real \<Rightarrow> real \<Rightarrow> real \<Rightarrow> string \<Rightarrow> string
     \<Rightarrow> element list option" where
  "make_panel draw_fn panel_w_mm panel_h_mm offset_x offset_y margin_mm size' line_width color
       clip_id =
     (let inner_w = panel_w_mm - 2 * margin_mm;
          inner_h = panel_h_mm - 2 * margin_mm;
          margin_pt = mm margin_mm
      in do {
        pattern_elements \<leftarrow> draw_fn inner_w inner_h size' line_width color;
        let clip = ClipPath clip_id [Rect 0 0 (mm inner_w) (mm inner_h) None];
        let group = G (Some [Translate (offset_x + margin_pt) (offset_y + margin_pt)]) None
                      [Defs [clip],
                       G None (Some (''url(#'' @ clip_id @ '')'')) pattern_elements];
        Some [group]
      })"

subsection \<open>Page assembly\<close>

text \<open>The attributes of the \<^verbatim>\<open>argparse\<close> namespace that the program reads.\<close>

record args =
  arg_type :: string
  arg_size :: real
  arg_line_width :: real
  arg_color :: string
  arg_orientation :: string
  arg_layout :: string
  arg_margin :: real
  arg_output :: string

datatype error = KeyError string

text \<open>
  Python's \<^verbatim>\<open>str\<close> of a non-negative integer, as the f-string \<^verbatim>\<open>f"clip-{i}"\<close> formats
  the loop index.
\<close>

fun str_of_nat :: "nat \<Rightarrow> string" where
  "str_of_nat n =
     (if n < 10 then [''0123456789'' ! n]
      else str_of_nat (n div 10) @ [''0123456789'' ! (n mod 10)])"

declare str_of_nat.simps [simp del]

text \<open>
  The \<^verbatim>\<open>for\<close> loop of the half layout, over \<^verbatim>\<open>range(2)\<close>: each iteration extends
  \<open>elements\<close> by the result of \<^verbatim>\<open>make_panel\<close>.
\<close>

fun half_panels ::
  "draw_fn \<Rightarrow> real \<Rightarrow> real \<Rightarrow> args \<Rightarrow> nat list \<Rightarrow> element list \<Rightarrow> element list option" where
  "half_panels draw_fn half_w page_h_mm a [] elements = Some elements"
| "half_panels draw_fn half_w page_h_mm a (i # rest) elements = do {
     let ox = mm half_w * real i;
     panel \<leftarrow> make_panel draw_fn half_w page_h_mm ox 0 (arg_margin a) (arg_size a)
                (arg_line_width a) (arg_color a) (''clip-'' @ str_of_nat i);
     half_panels draw_fn half_w page_h_mm a rest (elements @ panel)
   }"

text \<open>
  The \<^verbatim>\<open>for\<close> loop of the quarter layout, over
  \<^verbatim>\<open>enumerate([(0, 0), (1, 0), (0, 1), (1, 1)])\<close>.
\<close>

fun quarter_panels ::
  "draw_fn \<Rightarrow> real \<Rightarrow> real \<Rightarrow> args \<Rightarrow> (nat \<times> nat \<times> nat) list \<Rightarrow> element list
     \<Rightarrow> element list option" where
  "quarter_panels draw_fn half_w half_h a [] elements = Some elements"
| "quarter_panels draw_fn half_w half_h a ((i, col, row) # rest) elements = do {
     let ox = mm half_w * real col;
     let oy = mm half_h * real row;
     panel \<leftarrow> make_panel draw_fn half_w half_h ox oy (arg_margin a) (arg_size a)
                (arg_line_width a) (arg_color a) (''clip-'' @ str_of_nat i);
     quarter_panels draw_fn half_w half_h a rest (elements @ panel)
   }"

definition make_page :: "args \<Rightarrow> (error + SVG) option" where
  "make_page a =
     (let (page_w_mm, page_h_mm) =
            (if arg_orientation a = ''landscape'' then (PAGE_H_MM, PAGE_W_MM)
             else (PAGE_W_MM, PAGE_H_MM));
          page_w = mm page_w_mm;
          page_h = mm page_h_mm
      in case DRAW_FNS (arg_type a) of
           None \<Rightarrow> Some (Inl (KeyError (arg_type a)))
         | Some draw_fn \<Rightarrow> do {
             let elements = [Rect 0 0 page_w page_h (Some ''white'')];
             let fold_color = ''#999999'';
             let fold_width = mm 0.2;
             let fold_dash = (mm 2, mm 2);
             (elements, fold_lines) \<leftarrow>
               (if arg_layout a = ''full'' then do {
                  panel \<leftarrow> make_panel draw_fn page_w_mm page_h_mm 0 0 (arg_margin a)
                             (arg_size a) (arg_line_width a) (arg_color a) ''clip-0'';
                  Some (elements @ panel, [])
                }
                else if arg_layout a = ''half'' then do {
                  let half_w = page_w_mm / 2;
                  elements \<leftarrow> half_panels draw_fn half_w page_h_mm a [0..<2] elements;
                  let cx = page_w / 2;
                  Some (elements,
                        [Line cx 0 cx page_h fold_color fold_width (Some fold_dash)])
                }
                else if arg_layout a = ''quarter'' then do {
                  let half_w = page_w_mm / 2;
                  let half_h = page_h_mm / 2;
                  elements \<leftarrow> quarter_panels draw_fn half_w half_h a
                                (enumerate 0 [(0, 0), (1, 0), (0, 1), (1, 1)]) elements;
                  Some (elements, [])
                }
                else Some (elements, []));
             Some (Inr \<lparr>svg_width = page_w, svg_height = page_h,
                         svg_viewBox = (0, 0, page_w, page_h),
                         svg_elements = elements @ fold_lines\<rparr>)
           })"

subsection \<open>Colour normalisation (in \<^verbatim>\<open>main\<close>)\<close>

definition startswith :: "string \<Rightarrow> string \<Rightarrow> bool" where
  "startswith c p = (take (length p) c = p)"

definition normalize_color :: "string \<Rightarrow> string" where
  "normalize_color c =
     (if \<not> startswith c ''#''
         \<and> list_all (\<lambda>ch. ch \<in> set ''0123456789abcdefABCDEF'') c
         \<and> length c \<in> {3, 6, 8}
      then ''#'' @ c else c)"

subsection \<open>Notions used to state the properties\<close>

text \<open>
  The number of iterations of a loop \<^verbatim>\<open>while v <= bound: ...; v += step\<close> with a positive
  step: none when the test fails at once, otherwise \<open>\<lfloor>(bound - v) / step\<rfloor> + 1\<close>.
\<close>

definition loop_count :: "real \<Rightarrow> real \<Rightarrow> real \<Rightarrow> nat" where
  "loop_count v bound step = (if v \<le> bound then nat \<lfloor>(bound - v) / step\<rfloor> + 1 else 0)"

text \<open>The value of \<^verbatim>\<open>row_offset\<close> in column \<open>col\<close> of the hexagon tiling.\<close>

definition row_offset_of :: "real \<Rightarrow> nat \<Rightarrow> real" where
  "row_offset_of hex_h col = (if col mod 2 \<noteq> 0 then hex_h / 2 else 0)"

text \<open>Whether a path command is a line-to.\<close>

fun is_line_to :: "path_cmd \<Rightarrow> bool" where
  "is_line_to (L x y) = True"
| "is_line_to _ = False"

text \<open>
  The group that \<^verbatim>\<open>make_panel\<close> builds: translated by \<open>(tx, ty)\<close>, holding the definition of
  a clip rectangle of \<open>cw\<close> by \<open>ch\<close> named \<open>clip_id\<close> and, clipped by it, the pattern.
\<close>

abbreviation panel_group ::
  "string \<Rightarrow> real \<Rightarrow> real \<Rightarrow> real \<Rightarrow> real \<Rightarrow> element list \<Rightarrow> element" where
  "panel_group clip_id tx ty cw ch pattern \<equiv>
     G (Some [Translate tx ty]) None
       [Defs [ClipPath clip_id [Rect 0 0 cw ch None]],
        G None (Some (''url(#'' @ clip_id @ '')'')) pattern]"

section \<open>The loops in closed form\<close>

lemma while_le_step: "v \<le> bound \<Longrightarrow>
  while_le v bound step mk elements = while_le (v + step) bound step mk (elements @ [mk v])"
  by (subst while_le.simps) simp

lemma while_le_exit: "\<not> v \<le> bound \<Longrightarrow> while_le v bound step mk elements = Some elements"
  by (subst while_le.simps) simp

lemma map_upt_Suc_shift:
  "map f [0..<Suc n] = f 0 # map (\<lambda>k. f (Suc k)) [0..<n]"
  by (simp add: map_upt_Suc del: upt_Suc)

lemma while_le_run:
  "(\<And>k. k < n \<Longrightarrow> v + real k * step \<le> bound) \<Longrightarrow> \<not> v + real n * step \<le> bound \<Longrightarrow>
   while_le v bound step mk elements = Some (elements @ map (\<lambda>k. mk (v + real k * step)) [0..<n])"
proof (induction n arbitrary: v elements)
  case 0
  then show ?case by (simp add: while_le_exit)
next
  case (Suc n)
  have v: "v \<le> bound" using Suc.prems(1) [of 0] by simp
  have a: "\<And>k. k < n \<Longrightarrow> (v + step) + real k * step \<le> bound"
    using Suc.prems(1) by (force simp: algebra_simps) 
  have b: "\<not> (v + step) + real n * step \<le> bound"
    using Suc.prems(2) by (simp add: algebra_simps)
  have "while_le v bound step mk elements
          = while_le (v + step) bound step mk (elements @ [mk v])"
    using v by (rule while_le_step)
  also have "\<dots> = Some ((elements @ [mk v]) @ map (\<lambda>k. mk ((v + step) + real k * step)) [0..<n])"
    using a b by (rule Suc.IH)
  also have "(elements @ [mk v]) @ map (\<lambda>k. mk ((v + step) + real k * step)) [0..<n]
          = elements @ map (\<lambda>k. mk (v + real k * step)) [0..<Suc n]"
    unfolding map_upt_Suc_shift [of "\<lambda>k. mk (v + real k * step)"]
    by (simp add: algebra_simps)
  finally show ?case .
qed


lemma loop_count_below:
  assumes "0 < step" "k < loop_count v bound step"
  shows "v + real k * step \<le> bound"
proof -
  have le: "v \<le> bound"
    using assms(2) by (auto simp: loop_count_def split: if_splits)
  then have nn: "0 \<le> \<lfloor>(bound - v) / step\<rfloor>"
    using assms(1) by simp
  have "k < nat \<lfloor>(bound - v) / step\<rfloor> + 1"
    using assms(2) le by (simp add: loop_count_def)
  with nn have k: "int k \<le> \<lfloor>(bound - v) / step\<rfloor>"
    by linarith
  have "real k \<le> (bound - v) / step"
    using k by (simp add: le_floor_iff)
  then have "real k * step \<le> bound - v"
    using assms(1) by (simp add: pos_le_divide_eq)
  then show ?thesis by simp
qed

lemma loop_count_above:
  assumes "0 < step"
  shows "\<not> v + real (loop_count v bound step) * step \<le> bound"
proof (cases "v \<le> bound")
  case False
  then show ?thesis by (simp add: loop_count_def)
next
  case True
  then have nn: "0 \<le> \<lfloor>(bound - v) / step\<rfloor>"
    using assms by simp
  have "(bound - v) / step < real_of_int (\<lfloor>(bound - v) / step\<rfloor> + 1)"
    by linarith
  also have "\<dots> = real (loop_count v bound step)"
    using True nn by (simp add: loop_count_def)
  finally have "bound - v < real (loop_count v bound step) * step"
    using assms by (simp add: pos_divide_less_eq)
  then show ?thesis by simp
qed

lemma while_le_closed:
  "0 < step \<Longrightarrow>
   while_le v bound step mk elements =
     Some (elements @ map (\<lambda>k. mk (v + real k * step)) [0..<loop_count v bound step])"
  by (rule while_le_run) (simp_all add: loop_count_below loop_count_above)


lemma concat_map_upt_Suc_shift:
  "concat (map f [0..<Suc n]) = f 0 @ concat (map (\<lambda>k. f (Suc k)) [0..<n])"
  by (simp add: map_upt_Suc del: upt_Suc)

lemma draw_dots_loop_run:
  assumes "0 < step"
  shows "(\<And>k. k < n \<Longrightarrow> x + real k * step \<le> pw + 0.01) \<Longrightarrow>
    \<not> x + real n * step \<le> pw + 0.01 \<Longrightarrow>
    draw_dots_loop x pw ph step r color elements =
      Some (elements @ concat (map (\<lambda>i. map (\<lambda>j. Circle (x + real i * step) (real j * step) r color)
                                          [0..<loop_count 0 (ph + 0.01) step]) [0..<n]))"
proof (induction n arbitrary: x elements)
  case 0
  then show ?case by (subst draw_dots_loop.simps) simp
next
  case (Suc n)
  let ?col = "\<lambda>x. map (\<lambda>j. Circle x (real j * step) r color) [0..<loop_count 0 (ph + 0.01) step]"
  have x: "x \<le> pw + 0.01" using Suc.prems(1) [of 0] by simp
  have a: "\<And>k. k < n \<Longrightarrow> (x + step) + real k * step \<le> pw + 0.01"
    using Suc.prems(1) by (force simp: algebra_simps)
  have b: "\<not> (x + step) + real n * step \<le> pw + 0.01"
    using Suc.prems(2) by (simp add: algebra_simps)
  have inner: "while_le 0 (ph + 0.01) step (\<lambda>y. Circle x y r color) elements
                 = Some (elements @ ?col x)"
    using assms by (simp add: while_le_closed)
  have "draw_dots_loop x pw ph step r color elements
          = draw_dots_loop (x + step) pw ph step r color (elements @ ?col x)"
    using x inner by (subst draw_dots_loop.simps) simp
  also have "\<dots> = Some ((elements @ ?col x) @ concat (map (\<lambda>i. ?col ((x + step) + real i * step)) [0..<n]))"
    using a b by (rule Suc.IH)
  also have "(elements @ ?col x) @ concat (map (\<lambda>i. ?col ((x + step) + real i * step)) [0..<n])
          = elements @ concat (map (\<lambda>i. ?col (x + real i * step)) [0..<Suc n])"
    unfolding concat_map_upt_Suc_shift [of "\<lambda>i. ?col (x + real i * step)"]
    by (simp add: algebra_simps)
  finally show ?case .
qed

lemma draw_dots_loop_closed:
  "0 < step \<Longrightarrow>
   draw_dots_loop x pw ph step r color elements =
     Some (elements @ concat (map (\<lambda>i. map (\<lambda>j. Circle (x + real i * step) (real j * step) r color)
                                          [0..<loop_count 0 (ph + 0.01) step])
                                  [0..<loop_count x (pw + 0.01) step]))"
  by (rule draw_dots_loop_run) (simp_all add: loop_count_below loop_count_above)

lemma draw_hex_rows_run:
  "(\<And>k. k < n \<Longrightarrow> cy + real k * row_step \<le> ph + hex_h / 2) \<Longrightarrow>
   \<not> cy + real n * row_step \<le> ph + hex_h / 2 \<Longrightarrow>
   draw_hex_rows cy cx s hex_h ph row_step path_data =
     Some (path_data @ concat (map (\<lambda>j. hex_cmds cx (cy + real j * row_step) s) [0..<n]))"
proof (induction n arbitrary: cy path_data)
  case 0
  then show ?case by (subst draw_hex_rows.simps) (simp add: algebra_simps)
next
  case (Suc n)
  have c: "cy - hex_h / 2 \<le> ph" using Suc.prems(1) [of 0] by simp
  have a: "\<And>k. k < n \<Longrightarrow> (cy + row_step) + real k * row_step \<le> ph + hex_h / 2"
    using Suc.prems(1) by (force simp: algebra_simps)
  have b: "\<not> (cy + row_step) + real n * row_step \<le> ph + hex_h / 2"
    using Suc.prems(2) by (simp add: algebra_simps)
  have "draw_hex_rows cy cx s hex_h ph row_step path_data
          = draw_hex_rows (cy + row_step) cx s hex_h ph row_step (path_data @ hex_cmds cx cy s)"
    using c by (subst draw_hex_rows.simps) simp
  also have "\<dots> = Some ((path_data @ hex_cmds cx cy s)
                      @ concat (map (\<lambda>j. hex_cmds cx ((cy + row_step) + real j * row_step) s) [0..<n]))"
    using a b by (rule Suc.IH)
  also have "(path_data @ hex_cmds cx cy s)
               @ concat (map (\<lambda>j. hex_cmds cx ((cy + row_step) + real j * row_step) s) [0..<n])
          = path_data @ concat (map (\<lambda>j. hex_cmds cx (cy + real j * row_step) s) [0..<Suc n])"
    unfolding concat_map_upt_Suc_shift [of "\<lambda>j. hex_cmds cx (cy + real j * row_step) s"]
    by (simp add: algebra_simps)
  finally show ?case .
qed

lemma draw_hex_rows_closed:
  "0 < row_step \<Longrightarrow>
   draw_hex_rows cy cx s hex_h ph row_step path_data =
     Some (path_data @ concat (map (\<lambda>j. hex_cmds cx (cy + real j * row_step) s)
                                   [0..<loop_count cy (ph + hex_h / 2) row_step]))"
  by (rule draw_hex_rows_run) (simp_all add: loop_count_below loop_count_above)


lemma draw_hex_cols_run:
  assumes "0 < row_step"
  shows "(\<And>k. k < n \<Longrightarrow> cx + real k * col_step \<le> pw + s) \<Longrightarrow>
    \<not> cx + real n * col_step \<le> pw + s \<Longrightarrow>
    draw_hex_cols col cx s hex_h pw ph col_step row_step path_data =
      Some (path_data @ concat (map (\<lambda>i. concat (map
              (\<lambda>j. hex_cmds (cx + real i * col_step)
                     (row_offset_of hex_h (col + i) + real j * row_step) s)
              [0..<loop_count (row_offset_of hex_h (col + i)) (ph + hex_h / 2) row_step]))
            [0..<n]))"
proof (induction n arbitrary: col cx path_data)
  case 0
  then show ?case by (subst draw_hex_cols.simps) (simp add: algebra_simps)
next
  case (Suc n)
  let ?column = "\<lambda>cx col. concat (map
              (\<lambda>j. hex_cmds cx (row_offset_of hex_h col + real j * row_step) s)
              [0..<loop_count (row_offset_of hex_h col) (ph + hex_h / 2) row_step])"
  have c: "cx - s \<le> pw" using Suc.prems(1) [of 0] by simp
  have a: "\<And>k. k < n \<Longrightarrow> (cx + col_step) + real k * col_step \<le> pw + s"
    using Suc.prems(1) by (force simp: algebra_simps)
  have b: "\<not> (cx + col_step) + real n * col_step \<le> pw + s"
    using Suc.prems(2) by (simp add: algebra_simps)
  have inner: "draw_hex_rows (row_offset_of hex_h col) cx s hex_h ph row_step path_data
                 = Some (path_data @ ?column cx col)"
    using assms by (simp add: draw_hex_rows_closed)
  have "draw_hex_cols col cx s hex_h pw ph col_step row_step path_data
          = draw_hex_cols (col + 1) (cx + col_step) s hex_h pw ph col_step row_step
              (path_data @ ?column cx col)"
    using c inner by (subst draw_hex_cols.simps) (simp add: row_offset_of_def)
  also have "\<dots> = Some ((path_data @ ?column cx col)
                      @ concat (map (\<lambda>i. ?column ((cx + col_step) + real i * col_step) ((col + 1) + i)) [0..<n]))"
    using a b by (rule Suc.IH)
  also have "(path_data @ ?column cx col)
               @ concat (map (\<lambda>i. ?column ((cx + col_step) + real i * col_step) ((col + 1) + i)) [0..<n])
          = path_data @ concat (map (\<lambda>i. ?column (cx + real i * col_step) (col + i)) [0..<Suc n])"
    unfolding concat_map_upt_Suc_shift [of "\<lambda>i. ?column (cx + real i * col_step) (col + i)"]
    by (simp add: algebra_simps)
  finally show ?case .
qed

lemma draw_hex_cols_closed:
  "0 < row_step \<Longrightarrow> 0 < col_step \<Longrightarrow>
    draw_hex_cols col cx s hex_h pw ph col_step row_step path_data =
      Some (path_data @ concat (map (\<lambda>i. concat (map
              (\<lambda>j. hex_cmds (cx + real i * col_step)
                     (row_offset_of hex_h (col + i) + real j * row_step) s)
              [0..<loop_count (row_offset_of hex_h (col + i)) (ph + hex_h / 2) row_step]))
            [0..<loop_count cx (pw + s) col_step]))"
  by (rule draw_hex_cols_run) (simp_all add: loop_count_below loop_count_above)

section \<open>Unit conversion\<close>

lemma mm_eq: "mm val = val * 72 / 25.4"
  by (simp add: mm_def MM_PER_PT_def)

lemma mm_pos: "0 < val \<Longrightarrow> 0 < mm val"
  by (simp add: mm_def MM_PER_PT_def)

lemma mm_nonneg: "0 \<le> val \<Longrightarrow> 0 \<le> mm val"
  by (simp add: mm_def MM_PER_PT_def)

section \<open>Colour normalisation\<close>

lemma hex_not_hash:
  "list_all (\<lambda>ch. ch \<in> set ''0123456789abcdefABCDEF'') c \<Longrightarrow> \<not> startswith c ''#''"
  by (cases c) (auto simp: startswith_def)

text \<open>
  C9. A colour made only of hexadecimal digits, of length 3, 6 or 8 (so without a leading
  \<^verbatim>\<open>#\<close>), gets \<^verbatim>\<open>#\<close> in front; a colour that starts with \<^verbatim>\<open>#\<close> is unchanged; every
  other colour is unchanged too.
\<close>

theorem normalize_color_cases:
  "(list_all (\<lambda>ch. ch \<in> set ''0123456789abcdefABCDEF'') c \<and> length c \<in> {3, 6, 8}
      \<longrightarrow> normalize_color c = ''#'' @ c)
   \<and> (startswith c ''#'' \<longrightarrow> normalize_color c = c)
   \<and> (\<not> (list_all (\<lambda>ch. ch \<in> set ''0123456789abcdefABCDEF'') c \<and> length c \<in> {3, 6, 8})
      \<longrightarrow> normalize_color c = c)"
  using hex_not_hash [of c] by (auto simp: normalize_color_def)

theorem normalize_color_cases_witness:
  "normalize_color ''b3b3b3'' = ''#b3b3b3''
   \<and> normalize_color ''#cccccc'' = ''#cccccc''
   \<and> normalize_color ''red'' = ''red''"
  using normalize_color_cases [of "''b3b3b3''"] normalize_color_cases [of "''#cccccc''"]
    normalize_color_cases [of "''red''"]
  by (simp add: startswith_def)

section \<open>The generators in closed form\<close>

lemma draw_grid_closed:
  assumes "0 < size'"
  shows "draw_grid w h size' line_width color =
    Some (map (\<lambda>k. Line (real k * mm size') 0 (real k * mm size') (mm h) color (mm line_width) None)
            [0..<loop_count 0 (mm w + 0.01) (mm size')]
        @ map (\<lambda>k. Line 0 (real k * mm size') (mm w) (real k * mm size') color (mm line_width) None)
            [0..<loop_count 0 (mm h + 0.01) (mm size')])"
  using mm_pos [OF assms] by (simp add: draw_grid_def Let_def while_le_closed)

lemma draw_dots_closed:
  assumes "0 < size'"
  shows "draw_dots w h size' line_width color =
    Some (concat (map (\<lambda>i. map (\<lambda>j. Circle (real i * mm size') (real j * mm size')
                                     (mm line_width / 2) color)
                               [0..<loop_count 0 (mm h + 0.01) (mm size')])
                      [0..<loop_count 0 (mm w + 0.01) (mm size')]))"
  using mm_pos [OF assms] by (simp add: draw_dots_def Let_def draw_dots_loop_closed)

lemma draw_lined_closed:
  assumes "0 < size'"
  shows "draw_lined w h size' line_width color =
    Some (map (\<lambda>k. Line 0 (mm size' + real k * mm size') (mm w) (mm size' + real k * mm size')
                       color (mm line_width) None)
            [0..<loop_count (mm size') (mm h + 0.01) (mm size')])"
  using mm_pos [OF assms] by (simp add: draw_lined_def Let_def while_le_closed)

lemma sin_radians_60: "sin (radians 60) = sqrt 3 / 2"
  by (simp add: radians_def sin_60)

lemma cos_radians_60: "cos (radians 60) = 1 / 2"
  by (simp add: radians_def cos_60)

lemma tan_radians_60: "tan (radians 60) = sqrt 3"
  by (simp add: radians_def tan_60)

lemma draw_iso_closed:
  assumes "0 < size'"
  shows "draw_iso w h size' line_width color =
    Some (map (\<lambda>k. Line 0 (real k * mm size') (mm w) (real k * mm size') color (mm line_width) None)
            [0..<loop_count 0 (mm h + 0.01) (mm size')]
        @ map (\<lambda>k. Line (- mm h / sqrt 3 + real k * (mm size' / (sqrt 3 / 2))) (mm h)
                       (- mm h / sqrt 3 + real k * (mm size' / (sqrt 3 / 2)) + mm h / sqrt 3) 0
                       color (mm line_width) None)
            [0..<loop_count (- mm h / sqrt 3) (mm w) (mm size' / (sqrt 3 / 2))]
        @ map (\<lambda>k. Line (- mm h / sqrt 3 + real k * (mm size' / (sqrt 3 / 2))) 0
                       (- mm h / sqrt 3 + real k * (mm size' / (sqrt 3 / 2)) + mm h / sqrt 3) (mm h)
                       color (mm line_width) None)
            [0..<loop_count (- mm h / sqrt 3) (mm w) (mm size' / (sqrt 3 / 2))])"
proof -
  have dx: "0 < mm size' / (sqrt 3 / 2)"
    using mm_pos [OF assms] by simp
  show ?thesis
    using mm_pos [OF assms] dx
    by (simp add: draw_iso_def Let_def while_le_closed sin_radians_60 tan_radians_60)
qed

lemma draw_hex_closed:
  assumes "0 < size'"
  shows "draw_hex w h size' line_width color =
    Some [Path (concat (map (\<lambda>i. concat (map
              (\<lambda>j. hex_cmds (real i * (mm size' * 2 * 0.75))
                     (row_offset_of (mm size' * sqrt 3) i + real j * (mm size' * sqrt 3)) (mm size'))
              [0..<loop_count (row_offset_of (mm size' * sqrt 3) i)
                     (mm h + mm size' * sqrt 3 / 2) (mm size' * sqrt 3)]))
            [0..<loop_count 0 (mm w + mm size') (mm size' * 2 * 0.75)]))
          color (mm line_width) ''none'']"
proof -
  have a: "0 < mm size' * sqrt 3" and b: "0 < mm size' * 2 * 0.75"
    using mm_pos [OF assms] by simp_all
  show ?thesis
    unfolding draw_hex_def Let_def draw_hex_cols_closed [OF a b]
    by simp
qed


lemma cos_sin_radians_0: "cos (radians 0) = 1" "sin (radians 0) = 0"
  by (simp_all add: radians_def)

lemma cos_sin_radians_120: "cos (radians 120) = - 1 / 2" "sin (radians 120) = sqrt 3 / 2"
proof -
  have r: "radians 120 = pi - pi / 3" by (simp add: radians_def)
  show "cos (radians 120) = - 1 / 2" unfolding r cos_pi_minus by (simp add: cos_60)
  show "sin (radians 120) = sqrt 3 / 2" unfolding r sin_pi_minus by (simp add: sin_60)
qed

lemma cos_sin_radians_180: "cos (radians 180) = - 1" "sin (radians 180) = 0"
  by (simp_all add: radians_def)

lemma cos_sin_radians_240: "cos (radians 240) = - 1 / 2" "sin (radians 240) = - sqrt 3 / 2"
proof -
  have r: "radians 240 = pi / 3 + pi" by (simp add: radians_def)
  show "cos (radians 240) = - 1 / 2" unfolding r cos_periodic_pi by (simp add: cos_60)
  show "sin (radians 240) = - sqrt 3 / 2" unfolding r sin_periodic_pi by (simp add: sin_60)
qed

lemma cos_sin_radians_300: "cos (radians 300) = 1 / 2" "sin (radians 300) = - sqrt 3 / 2"
proof -
  have r: "radians 300 = 2 * pi - pi / 3" by (simp add: radians_def)
  show "cos (radians 300) = 1 / 2" unfolding r cos_2pi_minus by (simp add: cos_60)
  show "sin (radians 300) = - sqrt 3 / 2" unfolding r sin_2pi_minus by (simp add: sin_60)
qed

lemma upt_6: "[0..<6] = [0, 1, 2, 3, 4, 5]"
  by (simp add: upt_rec)

lemma hex_pts_explicit:
  "hex_pts cx cy s =
     [(cx + s, cy),
      (cx + s / 2, cy + s * sqrt 3 / 2),
      (cx - s / 2, cy + s * sqrt 3 / 2),
      (cx - s, cy),
      (cx - s / 2, cy - s * sqrt 3 / 2),
      (cx + s / 2, cy - s * sqrt 3 / 2)]"
  by (simp add: hex_pts_def upt_6 Let_def cos_sin_radians_0 sin_radians_60 cos_radians_60
      cos_sin_radians_120 cos_sin_radians_180 cos_sin_radians_240 cos_sin_radians_300)

lemma hex_cmds_explicit:
  "hex_cmds cx cy s =
     [M (cx + s) cy,
      L (cx + s / 2) (cy + s * sqrt 3 / 2),
      L (cx - s / 2) (cy + s * sqrt 3 / 2),
      L (cx - s) cy,
      L (cx - s / 2) (cy - s * sqrt 3 / 2),
      L (cx + s / 2) (cy - s * sqrt 3 / 2),
      Z]"
  by (simp add: hex_cmds_def hex_pts_explicit)

lemma hex_vertex_distance:
  "sqrt ((s * cos a)\<^sup>2 + (s * sin a)\<^sup>2) = \<bar>s\<bar>"
proof -
  have "(s * cos a)\<^sup>2 + (s * sin a)\<^sup>2 = s\<^sup>2 * ((cos a)\<^sup>2 + (sin a)\<^sup>2)"
    by (simp only: power_mult_distrib distrib_left)
  also have "\<dots> = s\<^sup>2" by (simp only: sin_cos_squared_add2 mult_1_right)
  finally show ?thesis by simp
qed

section \<open>The square grid\<close>

lemma loop_count_from_0: "0 \<le> bound \<Longrightarrow> loop_count 0 bound step = nat \<lfloor>bound / step\<rfloor> + 1"
  by (simp add: loop_count_def)

lemma floor_tolerance:
  fixes W S :: real
  assumes "0 < S" "W - real_of_int \<lfloor>W / S\<rfloor> * S + 0.01 < S"
  shows "\<lfloor>(W + 0.01) / S\<rfloor> = \<lfloor>W / S\<rfloor>"
proof (rule floor_unique)
  have "real_of_int \<lfloor>W / S\<rfloor> \<le> W / S" by simp
  also have "\<dots> \<le> (W + 0.01) / S" using assms(1) by (simp add: divide_right_mono)
  finally show "real_of_int \<lfloor>W / S\<rfloor> \<le> (W + 0.01) / S" .
  have "W + 0.01 < (real_of_int \<lfloor>W / S\<rfloor> + 1) * S"
    using assms(2) by (simp add: algebra_simps)
  then show "(W + 0.01) / S < real_of_int \<lfloor>W / S\<rfloor> + 1"
    using assms(1) by (simp add: pos_divide_less_eq)
qed

lemma upt_3: "[0..<3] = [0, 1, 2]"
  by (simp add: upt_rec)

lemma upt_5: "[0..<5] = [0, 1, 2, 3, 4]"
  by (simp add: upt_rec)

text \<open>
  C2. On a non-negative area of \<open>W = mm w\<close> by \<open>H = mm h\<close> document units and with a
  positive spacing \<open>S = mm size'\<close>, the grid generator returns first the vertical lines,
  the \<open>k\<close>-th at \<open>x = k * S\<close> from \<open>x = 0\<close> on and spanning \<open>y\<close> from \<open>0\<close> to \<open>H\<close>, as
  many as there are multiples of \<open>S\<close> up to \<open>W + 0.01\<close>, that is \<open>\<lfloor>(W + 0.01) / S\<rfloor> + 1\<close>;
  then the horizontal lines in the same way with \<open>W\<close> and \<open>H\<close> exchanged. Unless the last
  multiple of \<open>S\<close> below \<open>W\<close> is within \<open>0.01\<close> of a further one, the count is
  \<open>\<lfloor>W / S\<rfloor> + 1\<close>.
\<close>

theorem draw_grid_lines:
  assumes "0 < size'" "0 \<le> w" "0 \<le> h"
  shows "draw_grid w h size' line_width color =
      Some (map (\<lambda>k. Line (real k * mm size') 0 (real k * mm size') (mm h)
                         color (mm line_width) None)
              [0..<nat \<lfloor>(mm w + 0.01) / mm size'\<rfloor> + 1]
          @ map (\<lambda>k. Line 0 (real k * mm size') (mm w) (real k * mm size')
                         color (mm line_width) None)
              [0..<nat \<lfloor>(mm h + 0.01) / mm size'\<rfloor> + 1])
    \<and> (mm w - real_of_int \<lfloor>mm w / mm size'\<rfloor> * mm size' + 0.01 < mm size'
         \<longrightarrow> \<lfloor>(mm w + 0.01) / mm size'\<rfloor> = \<lfloor>mm w / mm size'\<rfloor>)
    \<and> (mm h - real_of_int \<lfloor>mm h / mm size'\<rfloor> * mm size' + 0.01 < mm size'
         \<longrightarrow> \<lfloor>(mm h + 0.01) / mm size'\<rfloor> = \<lfloor>mm h / mm size'\<rfloor>)"
proof -
  have W: "0 \<le> mm w + 0.01" and H: "0 \<le> mm h + 0.01"
    using mm_nonneg [OF assms(2)] mm_nonneg [OF assms(3)] by simp_all
  show ?thesis
    unfolding draw_grid_closed [OF assms(1)] loop_count_from_0 [OF W] loop_count_from_0 [OF H]
    using floor_tolerance [OF mm_pos [OF assms(1)]] by blast
qed

theorem draw_grid_lines_witness:
  "draw_grid 25.4 50.8 12.7 0.3 ''#cccccc'' =
     Some [Line 0 0 0 144 ''#cccccc'' (mm 0.3) None,
           Line 36 0 36 144 ''#cccccc'' (mm 0.3) None,
           Line 72 0 72 144 ''#cccccc'' (mm 0.3) None,
           Line 0 0 72 0 ''#cccccc'' (mm 0.3) None,
           Line 0 36 72 36 ''#cccccc'' (mm 0.3) None,
           Line 0 72 72 72 ''#cccccc'' (mm 0.3) None,
           Line 0 108 72 108 ''#cccccc'' (mm 0.3) None,
           Line 0 144 72 144 ''#cccccc'' (mm 0.3) None]
   \<and> \<lfloor>(mm 25.4 + 0.01) / mm 12.7\<rfloor> = \<lfloor>mm 25.4 / mm 12.7\<rfloor>"
  using draw_grid_lines [of "12.7" "25.4" "50.8" "0.3" "''#cccccc''"]
  by (simp add: mm_eq upt_3 upt_5)

section \<open>The hexagon tiling\<close>

lemma loop_count_eqI:
  assumes "0 < step" "v + real n * step \<le> bound" "bound < v + real (Suc n) * step"
  shows "loop_count v bound step = Suc n"
proof -
  have le: "v \<le> bound"
  proof -
    have "0 \<le> real n * step" using assms(1) by simp
    then show ?thesis using assms(2) by linarith
  qed
  have "\<lfloor>(bound - v) / step\<rfloor> = int n"
  proof (rule floor_unique)
    show "real_of_int (int n) \<le> (bound - v) / step"
      using assms(1,2) by (simp add: pos_le_divide_eq)
    show "(bound - v) / step < real_of_int (int n) + 1"
      using assms(1,3) by (simp add: pos_divide_less_eq algebra_simps)
  qed
  then show ?thesis using le by (simp add: loop_count_def)
qed

lemma concat_map_concat_map:
  "concat (map (\<lambda>i. concat (map (\<lambda>j. f (g i j)) (js i))) is)
     = concat (map f (concat (map (\<lambda>i. map (g i) (js i)) is)))"
  by (induction "is") (simp_all add: map_concat o_def)

lemma loop_count_1:
  "0 < step \<Longrightarrow> v \<le> bound \<Longrightarrow> bound < v + step \<Longrightarrow> loop_count v bound step = 1"
  using loop_count_eqI [of step v 0 bound] by simp

lemma loop_count_2:
  "0 < step \<Longrightarrow> v + step \<le> bound \<Longrightarrow> bound < v + 2 * step \<Longrightarrow> loop_count v bound step = 2"
  using loop_count_eqI [of step v 1 bound] by simp

lemma upt_2: "[0..<2] = [0, 1]"
  by (simp add: upt_rec)

lemma sqrt3_bounds: "1 < sqrt 3" "sqrt 3 < 2"
proof -
  show "1 < sqrt 3" by simp
  show "sqrt 3 < 2" by (rule real_less_lsqrt) simp_all
qed

lemma hex_pts_nth:
  "i < 6 \<Longrightarrow> hex_pts cx cy s ! i
     = (cx + s * cos (radians (60 * real i)), cy + s * sin (radians (60 * real i)))"
  by (simp add: hex_pts_def Let_def)

lemma hex_pts_distance:
  assumes "0 < s" "i < 6"
  shows "sqrt ((fst (hex_pts cx cy s ! i) - cx)\<^sup>2 + (snd (hex_pts cx cy s ! i) - cy)\<^sup>2) = s"
proof -
  let ?a = "radians (60 * real i)"
  have "sqrt ((fst (hex_pts cx cy s ! i) - cx)\<^sup>2 + (snd (hex_pts cx cy s ! i) - cy)\<^sup>2)
          = sqrt ((s * cos ?a)\<^sup>2 + (s * sin ?a)\<^sup>2)"
    unfolding hex_pts_nth [OF assms(2)] fst_conv snd_conv add_diff_cancel_left' ..
  also have "\<dots> = \<bar>s\<bar>" by (rule hex_vertex_distance)
  finally show ?thesis using assms(1) by simp
qed

lemma hex_concat:
  "concat (map (\<lambda>i. concat (map (\<lambda>j. hex_cmds (X i) (Y i j) s) (js i))) is)
     = concat (map (\<lambda>(cx, cy). hex_cmds cx cy s)
         (concat (map (\<lambda>i. map (\<lambda>j. (X i, Y i j)) (js i)) is)))"
  by (induction "is") (simp_all add: map_concat o_def)

lemma draw_hex_centres:
  assumes "0 < size'"
  shows "\<exists>centres. draw_hex w h size' line_width color =
      Some [Path (concat (map (\<lambda>(cx, cy). hex_cmds cx cy (mm size')) centres))
              color (mm line_width) ''none'']"
  unfolding draw_hex_closed [OF assms] hex_concat
  by (intro exI) (rule refl)

lemma hex_cmds_shape:
  "\<exists>p0 p1 p2 p3 p4 p5.
      hex_pts cx cy s = [p0, p1, p2, p3, p4, p5]
      \<and> hex_cmds cx cy s =
          [M (fst p0) (snd p0), L (fst p1) (snd p1), L (fst p2) (snd p2),
           L (fst p3) (snd p3), L (fst p4) (snd p4), L (fst p5) (snd p5), Z]"
  by (simp add: hex_cmds_def hex_pts_explicit)

text \<open>
  C3, as the code has it. For a positive spacing the path that \<^verbatim>\<open>draw_hex\<close> returns is a
  concatenation of hexagons, and every hexagon is seven commands: a move-to to the first
  vertex, five line-to commands to the other vertices and one close, so six edges with the
  closing one. Vertex \<open>i\<close> of the six stands at the angle of \<open>60 * i\<close> degrees around the
  centre, at Euclidean distance \<open>mm size'\<close> from it.
\<close>

theorem hex_path_shape:
  assumes "0 < size'"
  shows "(\<exists>centres. draw_hex w h size' line_width color =
            Some [Path (concat (map (\<lambda>(cx, cy). hex_cmds cx cy (mm size')) centres))
                    color (mm line_width) ''none''])
    \<and> (\<forall>cx cy. \<exists>p0 p1 p2 p3 p4 p5.
          hex_pts cx cy (mm size') = [p0, p1, p2, p3, p4, p5]
          \<and> hex_cmds cx cy (mm size') =
              [M (fst p0) (snd p0), L (fst p1) (snd p1), L (fst p2) (snd p2),
               L (fst p3) (snd p3), L (fst p4) (snd p4), L (fst p5) (snd p5), Z]
          \<and> (\<forall>i<6. hex_pts cx cy (mm size') ! i
                       = (cx + mm size' * cos (radians (60 * real i)),
                          cy + mm size' * sin (radians (60 * real i)))
                   \<and> sqrt ((fst (hex_pts cx cy (mm size') ! i) - cx)\<^sup>2
                            + (snd (hex_pts cx cy (mm size') ! i) - cy)\<^sup>2) = mm size'))"
proof (intro conjI allI)
  show "\<exists>centres. draw_hex w h size' line_width color =
            Some [Path (concat (map (\<lambda>(cx, cy). hex_cmds cx cy (mm size')) centres))
                    color (mm line_width) ''none'']"
    using assms by (rule draw_hex_centres)
next
  fix cx cy
  have v: "\<forall>i<6. hex_pts cx cy (mm size') ! i
                       = (cx + mm size' * cos (radians (60 * real i)),
                          cy + mm size' * sin (radians (60 * real i)))
                   \<and> sqrt ((fst (hex_pts cx cy (mm size') ! i) - cx)\<^sup>2
                            + (snd (hex_pts cx cy (mm size') ! i) - cy)\<^sup>2) = mm size'"
    using hex_pts_nth hex_pts_distance [OF mm_pos [OF assms]] by blast
  show "\<exists>p0 p1 p2 p3 p4 p5.
          hex_pts cx cy (mm size') = [p0, p1, p2, p3, p4, p5]
          \<and> hex_cmds cx cy (mm size') =
              [M (fst p0) (snd p0), L (fst p1) (snd p1), L (fst p2) (snd p2),
               L (fst p3) (snd p3), L (fst p4) (snd p4), L (fst p5) (snd p5), Z]
          \<and> (\<forall>i<6. hex_pts cx cy (mm size') ! i
                       = (cx + mm size' * cos (radians (60 * real i)),
                          cy + mm size' * sin (radians (60 * real i)))
                   \<and> sqrt ((fst (hex_pts cx cy (mm size') ! i) - cx)\<^sup>2
                            + (snd (hex_pts cx cy (mm size') ! i) - cy)\<^sup>2) = mm size')"
    using hex_cmds_shape [of cx cy "mm size'"] v by blast
qed

theorem hex_path_shape_witness:
  "(0::real) < 12.7
   \<and> (\<exists>centres. draw_hex 5 5 12.7 0.3 ''#cccccc'' =
            Some [Path (concat (map (\<lambda>(cx, cy). hex_cmds cx cy (mm 12.7)) centres))
                    ''#cccccc'' (mm 0.3) ''none''])
   \<and> (\<exists>p0 p1 p2 p3 p4 p5.
          hex_pts 0 0 (mm 12.7) = [p0, p1, p2, p3, p4, p5]
          \<and> hex_cmds 0 0 (mm 12.7) =
              [M (fst p0) (snd p0), L (fst p1) (snd p1), L (fst p2) (snd p2),
               L (fst p3) (snd p3), L (fst p4) (snd p4), L (fst p5) (snd p5), Z]
          \<and> sqrt ((fst (hex_pts 0 0 (mm 12.7) ! 1) - 0)\<^sup>2
                   + (snd (hex_pts 0 0 (mm 12.7) ! 1) - 0)\<^sup>2) = mm 12.7)"
proof -
  have p: "(0::real) < 12.7" by simp
  have one: "(1::nat) < 6" by simp
  show ?thesis
    using p one hex_path_shape [OF p, of 5 5 "0.3" "''#cccccc''"] by blast
qed

theorem hex_six_line_tos_counterexample:
  "draw_hex 5 5 12.7 0.3 ''#cccccc'' =
     Some [Path [M 36 0,
                 L 18 (18 * sqrt 3),
                 L (- 18) (18 * sqrt 3),
                 L (- 36) 0,
                 L (- 18) (- (18 * sqrt 3)),
                 L 18 (- (18 * sqrt 3)),
                 Z] ''#cccccc'' (mm 0.3) ''none'']
   \<and> length (filter is_line_to
         [M 36 0,
          L 18 (18 * sqrt 3),
          L (- 18) (18 * sqrt 3),
          L (- 36) 0,
          L (- 18) (- (18 * sqrt 3)),
          L 18 (- (18 * sqrt 3)),
          Z]) = 5"
proof -
  have c: "loop_count 0 (mm 5 + 36) 54 = 1"
    by (rule loop_count_1) (simp_all add: mm_eq)
  have "mm 5 < 18" by (simp add: mm_eq)
  moreover have "0 \<le> mm 5" by (simp add: mm_eq)
  ultimately have r: "loop_count 0 (mm 5 + 18 * sqrt 3) (36 * sqrt 3) = 1"
    using sqrt3_bounds by (intro loop_count_1; linarith)
  have m: "mm (127 / 10) = 36" by (simp add: mm_eq)
  show ?thesis
    using c r by (simp add: draw_hex_closed m row_offset_of_def hex_cmds_explicit)
qed

section \<open>Page assembly\<close>

lemma str_of_nat_digits:
  "str_of_nat 0 = ''0''" "str_of_nat 1 = ''1''" "str_of_nat 2 = ''2''" "str_of_nat 3 = ''3''"
  "str_of_nat (Suc 0) = ''1''"
  by (simp_all add: str_of_nat.simps)

lemma enumerate_panels:
  "enumerate 0 [(0, 0), (1, 0), (0, 1), (1, 1)]
     = [(0, 0, 0), (1, 1, 0), (2, 0, 1), (3 :: nat, 1 :: nat, 1 :: nat)]"
  by (simp add: numeral_2_eq_2 numeral_3_eq_3)

lemma half_panels_Some:
  assumes "draw_fn (half_w - 2 * arg_margin a) (page_h_mm - 2 * arg_margin a) (arg_size a)
             (arg_line_width a) (arg_color a) = Some pattern"
  shows "half_panels draw_fn half_w page_h_mm a idx elements =
     Some (elements @ map (\<lambda>i.
              panel_group (''clip-'' @ str_of_nat i) (mm half_w * real i + mm (arg_margin a))
                (0 + mm (arg_margin a))
                (mm (half_w - 2 * arg_margin a)) (mm (page_h_mm - 2 * arg_margin a)) pattern)
            idx)"
  using assms by (induction idx arbitrary: elements) (simp_all add: make_panel_def Let_def)

lemma half_panels_None:
  assumes "draw_fn (half_w - 2 * arg_margin a) (page_h_mm - 2 * arg_margin a) (arg_size a)
             (arg_line_width a) (arg_color a) = None"
  shows "half_panels draw_fn half_w page_h_mm a (i # idx) elements = None"
  using assms by (simp add: make_panel_def Let_def)

lemma quarter_panels_Some:
  assumes "draw_fn (half_w - 2 * arg_margin a) (half_h - 2 * arg_margin a) (arg_size a)
             (arg_line_width a) (arg_color a) = Some pattern"
  shows "quarter_panels draw_fn half_w half_h a idx elements =
     Some (elements @ map (\<lambda>(i, col, row).
              panel_group (''clip-'' @ str_of_nat i) (mm half_w * real col + mm (arg_margin a))
                (mm half_h * real row + mm (arg_margin a))
                (mm (half_w - 2 * arg_margin a)) (mm (half_h - 2 * arg_margin a)) pattern)
            idx)"
proof (induction idx arbitrary: elements)
  case Nil
  show ?case by simp
next
  case (Cons p idx)
  obtain i col row where p: "p = (i, col, row)" by (cases p)
  show ?case
    unfolding p using assms by (simp add: make_panel_def Let_def Cons.IH)
qed

lemma quarter_panels_None:
  assumes "draw_fn (half_w - 2 * arg_margin a) (half_h - 2 * arg_margin a) (arg_size a)
             (arg_line_width a) (arg_color a) = None"
  shows "quarter_panels draw_fn half_w half_h a (p # idx) elements = None"
  using assms by (cases p) (simp add: make_panel_def Let_def)

lemma make_page_eq:
  assumes d: "DRAW_FNS (arg_type a) = Some draw_fn"
    and W: "W = (if arg_orientation a = ''landscape'' then PAGE_H_MM else PAGE_W_MM)"
    and H: "H = (if arg_orientation a = ''landscape'' then PAGE_W_MM else PAGE_H_MM)"
    and m: "m = arg_margin a"
  shows "make_page a =
    (if arg_layout a = ''full'' then
       map_option (\<lambda>p. Inr \<lparr>svg_width = mm W, svg_height = mm H,
                             svg_viewBox = (0, 0, mm W, mm H),
                             svg_elements =
                               [Rect 0 0 (mm W) (mm H) (Some ''white''),
                                panel_group ''clip-0'' (0 + mm m) (0 + mm m)
                                  (mm (W - 2 * m)) (mm (H - 2 * m)) p]\<rparr>)
         (draw_fn (W - 2 * m) (H - 2 * m) (arg_size a) (arg_line_width a) (arg_color a))
     else if arg_layout a = ''half'' then
       map_option (\<lambda>p. Inr \<lparr>svg_width = mm W, svg_height = mm H,
                             svg_viewBox = (0, 0, mm W, mm H),
                             svg_elements =
                               [Rect 0 0 (mm W) (mm H) (Some ''white''),
                                panel_group ''clip-0'' (mm (W / 2) * 0 + mm m) (mm H * 0 + mm m)
                                  (mm (W / 2 - 2 * m)) (mm (H - 2 * m)) p,
                                panel_group ''clip-1'' (mm (W / 2) * 1 + mm m) (mm H * 0 + mm m)
                                  (mm (W / 2 - 2 * m)) (mm (H - 2 * m)) p,
                                Line (mm W / 2) 0 (mm W / 2) (mm H) ''#999999'' (mm 0.2)
                                  (Some (mm 2, mm 2))]\<rparr>)
         (draw_fn (W / 2 - 2 * m) (H - 2 * m) (arg_size a) (arg_line_width a) (arg_color a))
     else if arg_layout a = ''quarter'' then
       map_option (\<lambda>p. Inr \<lparr>svg_width = mm W, svg_height = mm H,
                             svg_viewBox = (0, 0, mm W, mm H),
                             svg_elements =
                               [Rect 0 0 (mm W) (mm H) (Some ''white''),
                                panel_group ''clip-0'' (mm (W / 2) * 0 + mm m) (mm (H / 2) * 0 + mm m)
                                  (mm (W / 2 - 2 * m)) (mm (H / 2 - 2 * m)) p,
                                panel_group ''clip-1'' (mm (W / 2) * 1 + mm m) (mm (H / 2) * 0 + mm m)
                                  (mm (W / 2 - 2 * m)) (mm (H / 2 - 2 * m)) p,
                                panel_group ''clip-2'' (mm (W / 2) * 0 + mm m) (mm (H / 2) * 1 + mm m)
                                  (mm (W / 2 - 2 * m)) (mm (H / 2 - 2 * m)) p,
                                panel_group ''clip-3'' (mm (W / 2) * 1 + mm m) (mm (H / 2) * 1 + mm m)
                                  (mm (W / 2 - 2 * m)) (mm (H / 2 - 2 * m)) p]\<rparr>)
         (draw_fn (W / 2 - 2 * m) (H / 2 - 2 * m) (arg_size a) (arg_line_width a) (arg_color a))
     else Some (Inr \<lparr>svg_width = mm W, svg_height = mm H,
                       svg_viewBox = (0, 0, mm W, mm H),
                       svg_elements = [Rect 0 0 (mm W) (mm H) (Some ''white'')]\<rparr>))"
proof -
  have pg: "(if arg_orientation a = ''landscape'' then (PAGE_H_MM, PAGE_W_MM)
             else (PAGE_W_MM, PAGE_H_MM)) = (W, H)"
    using W H by simp
  consider (full) "arg_layout a = ''full''"
    | (half) "arg_layout a = ''half''"
    | (quarter) "arg_layout a = ''quarter''"
    | (other) "arg_layout a \<noteq> ''full''" "arg_layout a \<noteq> ''half''" "arg_layout a \<noteq> ''quarter''"
    by blast
  then show ?thesis
  proof cases
    case full
    show ?thesis
    proof (cases "draw_fn (W - 2 * m) (H - 2 * m) (arg_size a) (arg_line_width a) (arg_color a)")
      case None
      then show ?thesis
        using full by (simp add: make_page_def d pg m make_panel_def Let_def)
    next
      case (Some p)
      then show ?thesis
        using full by (simp add: make_page_def d pg m make_panel_def Let_def)
    qed
  next
    case half
    show ?thesis
    proof (cases "draw_fn (W / 2 - 2 * m) (H - 2 * m) (arg_size a) (arg_line_width a) (arg_color a)")
      case None
      then have mp: "half_panels draw_fn (W / 2) H a [0, 1]
                   [Rect 0 0 (mm W) (mm H) (Some ''white'')] = None"
        unfolding m by (rule half_panels_None)
      then show ?thesis
        using half None mp by (simp add: make_page_def [unfolded enumerate_panels upt_2] d pg m Let_def
            str_of_nat_digits del: half_panels.simps quarter_panels.simps)
    next
      case (Some p)
      then have mp: "half_panels draw_fn (W / 2) H a [0, 1]
                   [Rect 0 0 (mm W) (mm H) (Some ''white'')] =
                 Some ([Rect 0 0 (mm W) (mm H) (Some ''white'')] @
                   map (\<lambda>i.
                     panel_group (''clip-'' @ str_of_nat i) (mm (W / 2) * real i + mm (arg_margin a))
                       (0 + mm (arg_margin a))
                       (mm (W / 2 - 2 * arg_margin a)) (mm (H - 2 * arg_margin a)) p)
                   [0, 1])"
        unfolding m by (rule half_panels_Some)
      then show ?thesis
        using half Some mp by (simp add: make_page_def [unfolded enumerate_panels upt_2] d pg m Let_def
            str_of_nat_digits del: half_panels.simps quarter_panels.simps)
    qed
  next
    case quarter
    show ?thesis
    proof (cases "draw_fn (W / 2 - 2 * m) (H / 2 - 2 * m) (arg_size a) (arg_line_width a) (arg_color a)")
      case None
      then have mp: "quarter_panels draw_fn (W / 2) (H / 2) a
                   [(0, 0, 0), (1, 1, 0), (2, 0, 1), (3, 1, 1)]
                   [Rect 0 0 (mm W) (mm H) (Some ''white'')] = None"
        unfolding m by (rule quarter_panels_None)
      then show ?thesis
        using quarter None mp by (simp add: make_page_def [unfolded enumerate_panels upt_2] d pg m Let_def
            str_of_nat_digits del: half_panels.simps quarter_panels.simps)
    next
      case (Some p)
      then have mp: "quarter_panels draw_fn (W / 2) (H / 2) a
                   [(0, 0, 0), (1, 1, 0), (2, 0, 1), (3, 1, 1)]
                   [Rect 0 0 (mm W) (mm H) (Some ''white'')] =
                 Some ([Rect 0 0 (mm W) (mm H) (Some ''white'')] @
                   map (\<lambda>(i, col, row).
                     panel_group (''clip-'' @ str_of_nat i) (mm (W / 2) * real col + mm (arg_margin a))
                       (mm (H / 2) * real row + mm (arg_margin a))
                       (mm (W / 2 - 2 * arg_margin a)) (mm (H / 2 - 2 * arg_margin a)) p)
                   [(0, 0, 0), (1, 1, 0), (2, 0, 1), (3, 1, 1)])"
        unfolding m by (rule quarter_panels_Some)
      then show ?thesis
        using quarter Some mp by (simp add: make_page_def [unfolded enumerate_panels upt_2] d pg m Let_def
            str_of_nat_digits del: half_panels.simps quarter_panels.simps)
    qed
  next
    case other
    then show ?thesis
      by (simp add: make_page_def d pg m Let_def)
  qed
qed


lemma DRAW_FNS_grid: "DRAW_FNS ''grid'' = Some draw_grid"
  by (simp add: DRAW_FNS_def)

lemma page_units: "mm PAGE_W_MM = 612" "mm PAGE_H_MM = 792"
  by (simp_all add: mm_eq PAGE_W_MM_def PAGE_H_MM_def)

text \<open>
  C6, as the code has it. A configuration of type grid, size 5 mm, layout full and
  orientation portrait yields a document 612 units wide (215.9 mm at 72 units per
  25.4 mm) and 792 units high (279.4 mm), with a view box of the same size, whose
  elements are a white rectangle of the size of the page and a single clipped panel
  group holding the grid of the inner area.
\<close>

theorem default_page_document:
  assumes "arg_type a = ''grid''" "arg_size a = 5" "arg_layout a = ''full''"
    "arg_orientation a = ''portrait''"
  shows "\<exists>pattern.
    draw_grid (PAGE_W_MM - 2 * arg_margin a) (PAGE_H_MM - 2 * arg_margin a) 5
      (arg_line_width a) (arg_color a) = Some pattern
    \<and> make_page a =
        Some (Inr \<lparr>svg_width = 612, svg_height = 792, svg_viewBox = (0, 0, 612, 792),
                     svg_elements =
                       [Rect 0 0 612 792 (Some ''white''),
                        panel_group ''clip-0'' (mm (arg_margin a)) (mm (arg_margin a))
                          (mm (PAGE_W_MM - 2 * arg_margin a))
                          (mm (PAGE_H_MM - 2 * arg_margin a)) pattern]\<rparr>)"
proof -
  have d: "DRAW_FNS (arg_type a) = Some draw_grid"
    using assms(1) by (simp add: DRAW_FNS_grid)
  obtain pattern where p: "draw_grid (PAGE_W_MM - 2 * arg_margin a)
      (PAGE_H_MM - 2 * arg_margin a) 5 (arg_line_width a) (arg_color a) = Some pattern"
    using draw_grid_closed [of 5] by simp
  have "make_page a =
        Some (Inr \<lparr>svg_width = 612, svg_height = 792, svg_viewBox = (0, 0, 612, 792),
                     svg_elements =
                       [Rect 0 0 612 792 (Some ''white''),
                        panel_group ''clip-0'' (mm (arg_margin a)) (mm (arg_margin a))
                          (mm (PAGE_W_MM - 2 * arg_margin a))
                          (mm (PAGE_H_MM - 2 * arg_margin a)) pattern]\<rparr>)"
    using p assms(2-4)
    by (simp add: make_page_eq [OF d refl refl refl] page_units)
  with p show ?thesis by blast
qed

theorem default_page_document_witness:
  "make_page \<lparr>arg_type = ''grid'', arg_size = 5, arg_line_width = 0.3,
               arg_color = ''#cccccc'', arg_orientation = ''portrait'',
               arg_layout = ''full'', arg_margin = 10, arg_output = ''output.svg''\<rparr> =
     Some (Inr \<lparr>svg_width = 612, svg_height = 792, svg_viewBox = (0, 0, 612, 792),
                  svg_elements =
                    [Rect 0 0 612 792 (Some ''white''),
                     panel_group ''clip-0'' (mm 10) (mm 10) (mm 195.9) (mm 259.4)
                       (map (\<lambda>k. Line (real k * mm 5) 0 (real k * mm 5) (mm 259.4)
                                     ''#cccccc'' (mm 0.3) None) [0..<40]
                        @ map (\<lambda>k. Line 0 (real k * mm 5) (mm 195.9) (real k * mm 5)
                                     ''#cccccc'' (mm 0.3) None) [0..<52])]\<rparr>)"
proof -
  have c: "loop_count 0 (mm 195.9 + 0.01) (mm 5) = 40"
    "loop_count 0 (mm 259.4 + 0.01) (mm 5) = 52"
    by (simp_all add: loop_count_def mm_eq)
  have g: "draw_grid (PAGE_W_MM - 2 * 10) (PAGE_H_MM - 2 * 10) 5 0.3 ''#cccccc'' =
     Some (map (\<lambda>k. Line (real k * mm 5) 0 (real k * mm 5) (mm 259.4)
                                     ''#cccccc'' (mm 0.3) None) [0..<40]
                        @ map (\<lambda>k. Line 0 (real k * mm 5) (mm 195.9) (real k * mm 5)
                                     ''#cccccc'' (mm 0.3) None) [0..<52])"
    using c by (simp add: draw_grid_closed PAGE_W_MM_def PAGE_H_MM_def)
  show ?thesis
    using g default_page_document
      [of "\<lparr>arg_type = ''grid'', arg_size = 5, arg_line_width = 0.3,
               arg_color = ''#cccccc'', arg_orientation = ''portrait'',
               arg_layout = ''full'', arg_margin = 10, arg_output = ''output.svg''\<rparr>"]
    by (simp add: PAGE_W_MM_def PAGE_H_MM_def)
qed

theorem default_page_width_counterexample:
  "map_option (map_sum id (\<lambda>doc. (svg_width doc, svg_height doc)))
     (make_page \<lparr>arg_type = ''grid'', arg_size = 5, arg_line_width = 0.3,
               arg_color = ''#cccccc'', arg_orientation = ''portrait'',
               arg_layout = ''full'', arg_margin = 10, arg_output = ''output.svg''\<rparr>)
     = Some (Inr (612, 792))
   \<and> (612 :: real) - 609.07 = 2.93 \<and> (792 :: real) - 791.53 = 0.47"
proof -
  obtain pattern where p: "draw_grid (PAGE_W_MM - 2 * 10)
      (PAGE_H_MM - 2 * 10) 5 0.3 ''#cccccc'' = Some pattern"
    using draw_grid_closed [of 5] by simp
  show ?thesis
    using p by (simp add: make_page_eq [OF _ refl refl refl] DRAW_FNS_grid page_units)
qed

lemma make_page_structure:
  assumes "make_page a = Some (Inr doc)"
  shows "\<exists>draw_fn W H panels.
    DRAW_FNS (arg_type a) = Some draw_fn
    \<and> (W, H) = (if arg_orientation a = ''landscape'' then (PAGE_H_MM, PAGE_W_MM)
                else (PAGE_W_MM, PAGE_H_MM))
    \<and> svg_width doc = mm W \<and> svg_height doc = mm H
    \<and> svg_elements doc =
        Rect 0 0 (mm W) (mm H) (Some ''white'') # panels
          @ (if arg_layout a = ''half''
             then [Line (mm W / 2) 0 (mm W / 2) (mm H) ''#999999'' (mm 0.2) (Some (mm 2, mm 2))]
             else [])
    \<and> (arg_layout a = ''full'' \<longrightarrow>
          (\<exists>p. draw_fn (W - 2 * arg_margin a) (H - 2 * arg_margin a) (arg_size a)
                  (arg_line_width a) (arg_color a) = Some p
             \<and> panels =
                 [panel_group ''clip-0'' (mm (arg_margin a)) (mm (arg_margin a))
                    (mm (W - 2 * arg_margin a)) (mm (H - 2 * arg_margin a)) p]))
    \<and> (arg_layout a = ''half'' \<longrightarrow>
          (\<exists>p. draw_fn (W / 2 - 2 * arg_margin a) (H - 2 * arg_margin a) (arg_size a)
                  (arg_line_width a) (arg_color a) = Some p
             \<and> panels =
                 [panel_group ''clip-0'' (mm (arg_margin a)) (mm (arg_margin a))
                    (mm (W / 2 - 2 * arg_margin a)) (mm (H - 2 * arg_margin a)) p,
                  panel_group ''clip-1'' (mm (W / 2) + mm (arg_margin a)) (mm (arg_margin a))
                    (mm (W / 2 - 2 * arg_margin a)) (mm (H - 2 * arg_margin a)) p]))
    \<and> (arg_layout a = ''quarter'' \<longrightarrow>
          (\<exists>p. draw_fn (W / 2 - 2 * arg_margin a) (H / 2 - 2 * arg_margin a) (arg_size a)
                  (arg_line_width a) (arg_color a) = Some p
             \<and> panels =
                 [panel_group ''clip-0'' (mm (arg_margin a)) (mm (arg_margin a))
                    (mm (W / 2 - 2 * arg_margin a)) (mm (H / 2 - 2 * arg_margin a)) p,
                  panel_group ''clip-1'' (mm (W / 2) + mm (arg_margin a)) (mm (arg_margin a))
                    (mm (W / 2 - 2 * arg_margin a)) (mm (H / 2 - 2 * arg_margin a)) p,
                  panel_group ''clip-2'' (mm (arg_margin a)) (mm (H / 2) + mm (arg_margin a))
                    (mm (W / 2 - 2 * arg_margin a)) (mm (H / 2 - 2 * arg_margin a)) p,
                  panel_group ''clip-3'' (mm (W / 2) + mm (arg_margin a))
                    (mm (H / 2) + mm (arg_margin a))
                    (mm (W / 2 - 2 * arg_margin a)) (mm (H / 2 - 2 * arg_margin a)) p]))
    \<and> (arg_layout a \<noteq> ''full'' \<and> arg_layout a \<noteq> ''half'' \<and> arg_layout a \<noteq> ''quarter''
          \<longrightarrow> panels = [])"
proof -
  obtain draw_fn where d: "DRAW_FNS (arg_type a) = Some draw_fn"
    using assms by (cases "DRAW_FNS (arg_type a)") (auto simp: make_page_def Let_def split: prod.splits)
  define W where "W = (if arg_orientation a = ''landscape'' then PAGE_H_MM else PAGE_W_MM)"
  define H where "H = (if arg_orientation a = ''landscape'' then PAGE_W_MM else PAGE_H_MM)"
  have WH: "(W, H) = (if arg_orientation a = ''landscape'' then (PAGE_H_MM, PAGE_W_MM)
                else (PAGE_W_MM, PAGE_H_MM))"
    by (simp add: W_def H_def)
  note eq = make_page_eq [OF d W_def H_def refl]
  consider (full) "arg_layout a = ''full''"
    | (half) "arg_layout a = ''half''"
    | (quarter) "arg_layout a = ''quarter''"
    | (other) "arg_layout a \<noteq> ''full''" "arg_layout a \<noteq> ''half''" "arg_layout a \<noteq> ''quarter''"
    by blast
  then show ?thesis
  proof cases
    case full
    from assms obtain p where
      p: "draw_fn (W - 2 * arg_margin a) (H - 2 * arg_margin a) (arg_size a)
                  (arg_line_width a) (arg_color a) = Some p"
      and doc: "doc = \<lparr>svg_width = mm W, svg_height = mm H,
                             svg_viewBox = (0, 0, mm W, mm H),
                             svg_elements =
                               [Rect 0 0 (mm W) (mm H) (Some ''white''),
                                panel_group ''clip-0'' (0 + mm (arg_margin a)) (0 + mm (arg_margin a))
                                  (mm (W - 2 * arg_margin a)) (mm (H - 2 * arg_margin a)) p]\<rparr>"
      unfolding eq using full by auto
    show ?thesis
      apply (rule exI [of _ draw_fn], rule exI [of _ W], rule exI [of _ H])
      apply (rule exI [of _ "[panel_group ''clip-0'' (mm (arg_margin a)) (mm (arg_margin a))
                    (mm (W - 2 * arg_margin a)) (mm (H - 2 * arg_margin a)) p]"])
      using d WH p full by (simp add: doc)
  next
    case half
    from assms obtain p where
      p: "draw_fn (W / 2 - 2 * arg_margin a) (H - 2 * arg_margin a) (arg_size a)
                  (arg_line_width a) (arg_color a) = Some p"
      and doc: "doc = \<lparr>svg_width = mm W, svg_height = mm H,
                             svg_viewBox = (0, 0, mm W, mm H),
                             svg_elements =
                               [Rect 0 0 (mm W) (mm H) (Some ''white''),
                                panel_group ''clip-0'' (mm (W / 2) * 0 + mm (arg_margin a)) (mm H * 0 + mm (arg_margin a))
                                  (mm (W / 2 - 2 * arg_margin a)) (mm (H - 2 * arg_margin a)) p,
                                panel_group ''clip-1'' (mm (W / 2) * 1 + mm (arg_margin a)) (mm H * 0 + mm (arg_margin a))
                                  (mm (W / 2 - 2 * arg_margin a)) (mm (H - 2 * arg_margin a)) p,
                                Line (mm W / 2) 0 (mm W / 2) (mm H) ''#999999'' (mm 0.2)
                                  (Some (mm 2, mm 2))]\<rparr>"
      unfolding eq using half by auto
    show ?thesis
      apply (rule exI [of _ draw_fn], rule exI [of _ W], rule exI [of _ H])
      apply (rule exI [of _ "[panel_group ''clip-0'' (mm (arg_margin a)) (mm (arg_margin a))
                    (mm (W / 2 - 2 * arg_margin a)) (mm (H - 2 * arg_margin a)) p,
                  panel_group ''clip-1'' (mm (W / 2) + mm (arg_margin a)) (mm (arg_margin a))
                    (mm (W / 2 - 2 * arg_margin a)) (mm (H - 2 * arg_margin a)) p]"])
      using d WH p half by (simp add: doc)
  next
    case quarter
    from assms obtain p where
      p: "draw_fn (W / 2 - 2 * arg_margin a) (H / 2 - 2 * arg_margin a) (arg_size a)
                  (arg_line_width a) (arg_color a) = Some p"
      and doc: "doc = \<lparr>svg_width = mm W, svg_height = mm H,
                             svg_viewBox = (0, 0, mm W, mm H),
                             svg_elements =
                               [Rect 0 0 (mm W) (mm H) (Some ''white''),
                                panel_group ''clip-0'' (mm (W / 2) * 0 + mm (arg_margin a)) (mm (H / 2) * 0 + mm (arg_margin a))
                                  (mm (W / 2 - 2 * arg_margin a)) (mm (H / 2 - 2 * arg_margin a)) p,
                                panel_group ''clip-1'' (mm (W / 2) * 1 + mm (arg_margin a)) (mm (H / 2) * 0 + mm (arg_margin a))
                                  (mm (W / 2 - 2 * arg_margin a)) (mm (H / 2 - 2 * arg_margin a)) p,
                                panel_group ''clip-2'' (mm (W / 2) * 0 + mm (arg_margin a)) (mm (H / 2) * 1 + mm (arg_margin a))
                                  (mm (W / 2 - 2 * arg_margin a)) (mm (H / 2 - 2 * arg_margin a)) p,
                                panel_group ''clip-3'' (mm (W / 2) * 1 + mm (arg_margin a)) (mm (H / 2) * 1 + mm (arg_margin a))
                                  (mm (W / 2 - 2 * arg_margin a)) (mm (H / 2 - 2 * arg_margin a)) p]\<rparr>"
      unfolding eq using quarter by auto
    show ?thesis
      apply (rule exI [of _ draw_fn], rule exI [of _ W], rule exI [of _ H])
      apply (rule exI [of _ "[panel_group ''clip-0'' (mm (arg_margin a)) (mm (arg_margin a))
                    (mm (W / 2 - 2 * arg_margin a)) (mm (H / 2 - 2 * arg_margin a)) p,
                  panel_group ''clip-1'' (mm (W / 2) + mm (arg_margin a)) (mm (arg_margin a))
                    (mm (W / 2 - 2 * arg_margin a)) (mm (H / 2 - 2 * arg_margin a)) p,
                  panel_group ''clip-2'' (mm (arg_margin a)) (mm (H / 2) + mm (arg_margin a))
                    (mm (W / 2 - 2 * arg_margin a)) (mm (H / 2 - 2 * arg_margin a)) p,
                  panel_group ''clip-3'' (mm (W / 2) + mm (arg_margin a))
                    (mm (H / 2) + mm (arg_margin a))
                    (mm (W / 2 - 2 * arg_margin a)) (mm (H / 2 - 2 * arg_margin a)) p]"])
      using d WH p quarter by (simp add: doc)
  next
    case other
    from assms have doc: "doc = \<lparr>svg_width = mm W, svg_height = mm H,
                       svg_viewBox = (0, 0, mm W, mm H),
                       svg_elements = [Rect 0 0 (mm W) (mm H) (Some ''white'')]\<rparr>"
      unfolding eq using other by auto
    show ?thesis
      apply (rule exI [of _ draw_fn], rule exI [of _ W], rule exI [of _ H])
      apply (rule exI [of _ "[]"])
      using d WH other by (simp add: doc)
  qed
qed

lemma DRAW_FNS_cases:
  assumes "DRAW_FNS t = Some g"
  shows "g = draw_grid \<or> g = draw_dots \<or> g = draw_hex \<or> g = draw_lined \<or> g = draw_iso"
  using assms by (auto simp: DRAW_FNS_def split: if_splits)

lemma DRAW_FNS_total:
  assumes "DRAW_FNS t = Some g" "0 < size'"
  shows "\<exists>els. g w h size' line_width color = Some els"
  using DRAW_FNS_cases [OF assms(1)] draw_grid_closed [OF assms(2)] draw_dots_closed [OF assms(2)]
    draw_hex_closed [OF assms(2)] draw_lined_closed [OF assms(2)] draw_iso_closed [OF assms(2)]
  by auto

lemma make_page_total:
  assumes "DRAW_FNS (arg_type a) = Some g" "0 < arg_size a"
  shows "\<exists>doc. make_page a = Some (Inr doc)"
proof -
  note t = DRAW_FNS_total [OF assms]
  show ?thesis
    unfolding make_page_eq [OF assms(1) refl refl refl]
    using t [of "(if arg_orientation a = ''landscape'' then PAGE_H_MM else PAGE_W_MM)
                   - 2 * arg_margin a"
                "(if arg_orientation a = ''landscape'' then PAGE_W_MM else PAGE_H_MM)
                   - 2 * arg_margin a" "arg_line_width a" "arg_color a"]
      t [of "(if arg_orientation a = ''landscape'' then PAGE_H_MM else PAGE_W_MM) / 2
                   - 2 * arg_margin a"
                "(if arg_orientation a = ''landscape'' then PAGE_W_MM else PAGE_H_MM)
                   - 2 * arg_margin a" "arg_line_width a" "arg_color a"]
      t [of "(if arg_orientation a = ''landscape'' then PAGE_H_MM else PAGE_W_MM) / 2
                   - 2 * arg_margin a"
                "(if arg_orientation a = ''landscape'' then PAGE_W_MM else PAGE_H_MM) / 2
                   - 2 * arg_margin a" "arg_line_width a" "arg_color a"]
    by (cases "arg_layout a = ''full''"; cases "arg_layout a = ''half''";
        cases "arg_layout a = ''quarter''") auto
qed

text \<open>
  C5. For a positive size and a type of \<^verbatim>\<open>DRAW_FNS\<close>, \<^verbatim>\<open>make_page\<close> returns a document; and
  whenever it returns a document, the elements of the document are: first a white
  rectangle over the whole page; then one panel group per panel, in the order of the
  layout, one for full, two for half (left, right) and four for quarter (by rows), each
  holding the pattern of the generator on the panel's inner area; then the fold lines,
  which are a single vertical dashed line at half the page width over the full page
  height in the half layout, and none otherwise. A layout other than these three has no
  panel.
\<close>

theorem make_page_element_order:
  "(0 < arg_size a \<and> arg_type a \<in> dom DRAW_FNS \<longrightarrow> (\<exists>doc. make_page a = Some (Inr doc)))
   \<and> (\<forall>doc. make_page a = Some (Inr doc) \<longrightarrow>
        (\<exists>draw_fn W H panels.
          DRAW_FNS (arg_type a) = Some draw_fn
          \<and> (W, H) = (if arg_orientation a = ''landscape'' then (PAGE_H_MM, PAGE_W_MM)
                      else (PAGE_W_MM, PAGE_H_MM))
          \<and> svg_width doc = mm W \<and> svg_height doc = mm H
          \<and> svg_elements doc =
              Rect 0 0 (mm W) (mm H) (Some ''white'') # panels
                @ (if arg_layout a = ''half''
                   then [Line (mm W / 2) 0 (mm W / 2) (mm H) ''#999999'' (mm 0.2) (Some (mm 2, mm 2))]
                   else [])
          \<and> (arg_layout a = ''full'' \<longrightarrow>
                (\<exists>p. draw_fn (W - 2 * arg_margin a) (H - 2 * arg_margin a) (arg_size a)
                        (arg_line_width a) (arg_color a) = Some p
                   \<and> panels =
                       [panel_group ''clip-0'' (mm (arg_margin a)) (mm (arg_margin a))
                          (mm (W - 2 * arg_margin a)) (mm (H - 2 * arg_margin a)) p]))
          \<and> (arg_layout a = ''half'' \<longrightarrow>
                (\<exists>p. draw_fn (W / 2 - 2 * arg_margin a) (H - 2 * arg_margin a) (arg_size a)
                        (arg_line_width a) (arg_color a) = Some p
                   \<and> panels =
                       [panel_group ''clip-0'' (mm (arg_margin a)) (mm (arg_margin a))
                          (mm (W / 2 - 2 * arg_margin a)) (mm (H - 2 * arg_margin a)) p,
                        panel_group ''clip-1'' (mm (W / 2) + mm (arg_margin a)) (mm (arg_margin a))
                          (mm (W / 2 - 2 * arg_margin a)) (mm (H - 2 * arg_margin a)) p]))
          \<and> (arg_layout a = ''quarter'' \<longrightarrow>
                (\<exists>p. draw_fn (W / 2 - 2 * arg_margin a) (H / 2 - 2 * arg_margin a) (arg_size a)
                        (arg_line_width a) (arg_color a) = Some p
                   \<and> panels =
                       [panel_group ''clip-0'' (mm (arg_margin a)) (mm (arg_margin a))
                          (mm (W / 2 - 2 * arg_margin a)) (mm (H / 2 - 2 * arg_margin a)) p,
                        panel_group ''clip-1'' (mm (W / 2) + mm (arg_margin a)) (mm (arg_margin a))
                          (mm (W / 2 - 2 * arg_margin a)) (mm (H / 2 - 2 * arg_margin a)) p,
                        panel_group ''clip-2'' (mm (arg_margin a)) (mm (H / 2) + mm (arg_margin a))
                          (mm (W / 2 - 2 * arg_margin a)) (mm (H / 2 - 2 * arg_margin a)) p,
                        panel_group ''clip-3'' (mm (W / 2) + mm (arg_margin a))
                          (mm (H / 2) + mm (arg_margin a))
                          (mm (W / 2 - 2 * arg_margin a)) (mm (H / 2 - 2 * arg_margin a)) p]))
          \<and> (arg_layout a \<noteq> ''full'' \<and> arg_layout a \<noteq> ''half'' \<and> arg_layout a \<noteq> ''quarter''
                \<longrightarrow> panels = [])))"
  using make_page_total [of a] make_page_structure [of a] by (simp add: dom_def) blast

theorem make_page_element_order_witness:
  "make_page \<lparr>arg_type = ''lined'', arg_size = 100, arg_line_width = 0.3,
               arg_color = ''#cccccc'', arg_orientation = ''portrait'',
               arg_layout = ''half'', arg_margin = 10, arg_output = ''output.svg''\<rparr> =
     Some (Inr \<lparr>svg_width = 612, svg_height = 792, svg_viewBox = (0, 0, 612, 792),
                  svg_elements =
                    [Rect 0 0 612 792 (Some ''white''),
                     panel_group ''clip-0'' (mm 10) (mm 10) (mm 87.95) (mm 259.4)
                       [Line 0 (mm 100) (mm 87.95) (mm 100) ''#cccccc'' (mm 0.3) None,
                        Line 0 (mm 200) (mm 87.95) (mm 200) ''#cccccc'' (mm 0.3) None],
                     panel_group ''clip-1'' (306 + mm 10) (mm 10) (mm 87.95) (mm 259.4)
                       [Line 0 (mm 100) (mm 87.95) (mm 100) ''#cccccc'' (mm 0.3) None,
                        Line 0 (mm 200) (mm 87.95) (mm 200) ''#cccccc'' (mm 0.3) None],
                     Line 306 0 306 792 ''#999999'' (mm 0.2) (Some (mm 2, mm 2))]\<rparr>)
   \<and> (\<exists>draw_fn. DRAW_FNS ''lined'' = Some draw_fn)"
proof -
  let ?a = "\<lparr>arg_type = ''lined'', arg_size = 100, arg_line_width = 0.3,
               arg_color = ''#cccccc'', arg_orientation = ''portrait'',
               arg_layout = ''half'', arg_margin = 10, arg_output = ''output.svg''\<rparr>"
  let ?doc = "\<lparr>svg_width = 612, svg_height = 792, svg_viewBox = (0, 0, 612, 792),
                  svg_elements =
                    [Rect 0 0 612 792 (Some ''white''),
                     panel_group ''clip-0'' (mm 10) (mm 10) (mm 87.95) (mm 259.4)
                       [Line 0 (mm 100) (mm 87.95) (mm 100) ''#cccccc'' (mm 0.3) None,
                        Line 0 (mm 200) (mm 87.95) (mm 200) ''#cccccc'' (mm 0.3) None],
                     panel_group ''clip-1'' (306 + mm 10) (mm 10) (mm 87.95) (mm 259.4)
                       [Line 0 (mm 100) (mm 87.95) (mm 100) ''#cccccc'' (mm 0.3) None,
                        Line 0 (mm 200) (mm 87.95) (mm 200) ''#cccccc'' (mm 0.3) None],
                     Line 306 0 306 792 ''#999999'' (mm 0.2) (Some (mm 2, mm 2))]\<rparr>"
  have d: "DRAW_FNS (arg_type ?a) = Some draw_lined"
    by (simp add: DRAW_FNS_def)
  have c: "loop_count (mm 100) (mm 259.4 + 0.01) (mm 100) = 2"
    by (simp add: loop_count_def mm_eq)
  have l: "draw_lined (PAGE_W_MM / 2 - 2 * 10) (PAGE_H_MM - 2 * 10) 100 0.3 ''#cccccc'' =
      Some [Line 0 (mm 100) (mm 87.95) (mm 100) ''#cccccc'' (mm 0.3) None,
            Line 0 (mm 200) (mm 87.95) (mm 200) ''#cccccc'' (mm 0.3) None]"
    using c by (simp add: draw_lined_closed PAGE_W_MM_def PAGE_H_MM_def upt_2 mm_eq)
  have h: "make_page ?a = Some (Inr ?doc)"
    using l by (simp add: make_page_eq [OF d refl refl refl] mm_eq PAGE_W_MM_def PAGE_H_MM_def)
  show ?thesis
    using h make_page_element_order [of ?a] by auto
qed

section \<open>Termination and the number of primitives\<close>
















section \<open>Units of the generators' inputs\<close>

text \<open>
  C1, as the code has it. The width and height that a generator receives are in
  millimetres: \<^verbatim>\<open>make_panel\<close> hands the inner area \<open>panel - 2 * margin\<close> to the generator as
  it is, with the spacing and the line width in millimetres too, and converts the same
  inner area a second time for the clip rectangle. Each of the five generators converts
  its own four inputs with \<^verbatim>\<open>mm\<close>, and everything it returns for a positive spacing is
  written in the converted values \<open>mm w\<close>, \<open>mm h\<close>, \<open>mm size'\<close> and \<open>mm line_width\<close>.
\<close>

theorem generators_take_millimetres:
  assumes "0 < size'"
  shows
   "make_panel draw_fn panel_w_mm panel_h_mm offset_x offset_y margin_mm size' line_width color
        clip_id =
      map_option
        (\<lambda>pattern. [panel_group clip_id (offset_x + mm margin_mm) (offset_y + mm margin_mm)
                       (mm (panel_w_mm - 2 * margin_mm)) (mm (panel_h_mm - 2 * margin_mm))
                       pattern])
        (draw_fn (panel_w_mm - 2 * margin_mm) (panel_h_mm - 2 * margin_mm) size' line_width
           color)
    \<and> draw_grid w h size' line_width color =
        Some (map (\<lambda>k. Line (real k * mm size') 0 (real k * mm size') (mm h)
                           color (mm line_width) None)
                [0..<loop_count 0 (mm w + 0.01) (mm size')]
            @ map (\<lambda>k. Line 0 (real k * mm size') (mm w) (real k * mm size')
                           color (mm line_width) None)
                [0..<loop_count 0 (mm h + 0.01) (mm size')])
    \<and> draw_dots w h size' line_width color =
        Some (concat (map (\<lambda>i. map (\<lambda>j. Circle (real i * mm size') (real j * mm size')
                                         (mm line_width / 2) color)
                                   [0..<loop_count 0 (mm h + 0.01) (mm size')])
                          [0..<loop_count 0 (mm w + 0.01) (mm size')]))
    \<and> draw_lined w h size' line_width color =
        Some (map (\<lambda>k. Line 0 (mm size' + real k * mm size') (mm w)
                           (mm size' + real k * mm size') color (mm line_width) None)
                [0..<loop_count (mm size') (mm h + 0.01) (mm size')])
    \<and> draw_hex w h size' line_width color =
        Some [Path (concat (map (\<lambda>i. concat (map
                  (\<lambda>j. hex_cmds (real i * (mm size' * 2 * 0.75))
                         (row_offset_of (mm size' * sqrt 3) i + real j * (mm size' * sqrt 3))
                         (mm size'))
                  [0..<loop_count (row_offset_of (mm size' * sqrt 3) i)
                         (mm h + mm size' * sqrt 3 / 2) (mm size' * sqrt 3)]))
                [0..<loop_count 0 (mm w + mm size') (mm size' * 2 * 0.75)]))
              color (mm line_width) ''none'']
    \<and> draw_iso w h size' line_width color =
        Some (map (\<lambda>k. Line 0 (real k * mm size') (mm w) (real k * mm size')
                           color (mm line_width) None)
                [0..<loop_count 0 (mm h + 0.01) (mm size')]
            @ map (\<lambda>k. Line (- mm h / sqrt 3 + real k * (mm size' / (sqrt 3 / 2))) (mm h)
                           (- mm h / sqrt 3 + real k * (mm size' / (sqrt 3 / 2))
                              + mm h / sqrt 3) 0
                           color (mm line_width) None)
                [0..<loop_count (- mm h / sqrt 3) (mm w) (mm size' / (sqrt 3 / 2))]
            @ map (\<lambda>k. Line (- mm h / sqrt 3 + real k * (mm size' / (sqrt 3 / 2))) 0
                           (- mm h / sqrt 3 + real k * (mm size' / (sqrt 3 / 2))
                              + mm h / sqrt 3) (mm h)
                           color (mm line_width) None)
                [0..<loop_count (- mm h / sqrt 3) (mm w) (mm size' / (sqrt 3 / 2))])"
proof (intro conjI)
  show "make_panel draw_fn panel_w_mm panel_h_mm offset_x offset_y margin_mm size' line_width color
        clip_id =
      map_option
        (\<lambda>pattern. [panel_group clip_id (offset_x + mm margin_mm) (offset_y + mm margin_mm)
                       (mm (panel_w_mm - 2 * margin_mm)) (mm (panel_h_mm - 2 * margin_mm))
                       pattern])
        (draw_fn (panel_w_mm - 2 * margin_mm) (panel_h_mm - 2 * margin_mm) size' line_width
           color)"
    by (cases "draw_fn (panel_w_mm - 2 * margin_mm) (panel_h_mm - 2 * margin_mm) size'
                 line_width color") (simp_all add: make_panel_def Let_def)
qed (rule draw_grid_closed draw_dots_closed draw_lined_closed draw_hex_closed draw_iso_closed,
     rule assms)+

theorem generators_take_millimetres_witness:
  "make_panel draw_lined 45.4 70.8 0 0 10 25.4 0.3 ''#cccccc'' ''clip-0'' =
     Some [panel_group ''clip-0'' (mm 10) (mm 10) 72 144
             [Line 0 72 72 72 ''#cccccc'' (mm 0.3) None,
              Line 0 144 72 144 ''#cccccc'' (mm 0.3) None]]
   \<and> draw_lined 25.4 50.8 25.4 0.3 ''#cccccc'' =
       Some [Line 0 72 72 72 ''#cccccc'' (mm 0.3) None,
             Line 0 144 72 144 ''#cccccc'' (mm 0.3) None]"
proof -
  have c: "loop_count 72 (14401 / 100) 72 = 2"
    by (simp add: loop_count_def)
  note t = generators_take_millimetres
    [of "25.4" draw_lined "45.4" "70.8" 0 0 10 "0.3" "''#cccccc''" "''clip-0''" "25.4" "50.8"]
  have l: "draw_lined 25.4 50.8 25.4 0.3 ''#cccccc'' =
       Some [Line 0 72 72 72 ''#cccccc'' (mm 0.3) None,
             Line 0 144 72 144 ''#cccccc'' (mm 0.3) None]"
    using t c by (simp add: mm_eq upt_2)
  have "make_panel draw_lined 45.4 70.8 0 0 10 25.4 0.3 ''#cccccc'' ''clip-0'' =
     Some [panel_group ''clip-0'' (mm 10) (mm 10) 72 144
             [Line 0 72 72 72 ''#cccccc'' (mm 0.3) None,
              Line 0 144 72 144 ''#cccccc'' (mm 0.3) None]]"
    using t l by (simp add: mm_eq)
  with l show ?thesis by blast
qed

theorem generator_input_units_counterexample:
  "draw_grid 25.4 25.4 25.4 0.3 ''#cccccc'' =
     Some [Line 0 0 0 72 ''#cccccc'' (mm 0.3) None,
           Line 72 0 72 72 ''#cccccc'' (mm 0.3) None,
           Line 0 0 72 0 ''#cccccc'' (mm 0.3) None,
           Line 0 72 72 72 ''#cccccc'' (mm 0.3) None]
   \<and> mm 25.4 = 72
   \<and> make_panel draw_grid 45.4 45.4 0 0 10 25.4 0.3 ''#cccccc'' ''clip-0'' =
       Some [panel_group ''clip-0'' (mm 10) (mm 10) 72 72
               [Line 0 0 0 72 ''#cccccc'' (mm 0.3) None,
                Line 72 0 72 72 ''#cccccc'' (mm 0.3) None,
                Line 0 0 72 0 ''#cccccc'' (mm 0.3) None,
                Line 0 72 72 72 ''#cccccc'' (mm 0.3) None]]"
proof -
  have c: "loop_count 0 (7201 / 100) 72 = 2"
    by (simp add: loop_count_def)
  show ?thesis
    using c by (simp add: make_panel_def Let_def draw_grid_closed mm_eq upt_2)
qed

section \<open>The single path of the hexagon tiling\<close>

lemma loop_count_mem:
  assumes "0 < step" "v + real k * step \<le> bound"
  shows "k < loop_count v bound step"
proof (rule ccontr)
  assume "\<not> k < loop_count v bound step"
  then have "real (loop_count v bound step) \<le> real k" by simp
  then have "real (loop_count v bound step) * step \<le> real k * step"
    using assms(1) by (intro mult_right_mono) simp_all
  then have "v + real (loop_count v bound step) * step \<le> bound"
    using assms(2) by linarith
  then show False using loop_count_above [OF assms(1)] by blast
qed

lemma set_concat_rows:
  "set (concat (map (\<lambda>i. map (g i) [0..<n i]) [0..<m])) = {g i j | i j. i < m \<and> j < n i}"
  by auto blast

text \<open>
  C10. For a positive spacing and any area, \<^verbatim>\<open>draw_hex\<close> returns a list of exactly one
  \<open>Path\<close>, stroked and not filled. The data of that path is, for a list of centres, the
  concatenation of one closed subpath per centre: the move-to, the five line-to commands
  and the close that draw the hexagon of side \<open>mm size'\<close> around the centre. Every centre
  is a point of the tiling (column \<open>i\<close> at \<open>x = i * 1.5 * s\<close>, row \<open>j\<close> of the column one
  hexagon height further down from the column's row offset) that passes the tests of the
  two loops, and every point of the tiling that passes both tests strictly is a centre.
\<close>

theorem draw_hex_single_path:
  assumes "0 < size'"
  shows "\<exists>centres.
    draw_hex w h size' line_width color =
      Some [Path (concat (map (\<lambda>(cx, cy).
                    [M (cx + mm size') cy,
                     L (cx + mm size' / 2) (cy + mm size' * sqrt 3 / 2),
                     L (cx - mm size' / 2) (cy + mm size' * sqrt 3 / 2),
                     L (cx - mm size') cy,
                     L (cx - mm size' / 2) (cy - mm size' * sqrt 3 / 2),
                     L (cx + mm size' / 2) (cy - mm size' * sqrt 3 / 2),
                     Z]) centres))
              color (mm line_width) ''none'']
    \<and> (\<forall>(cx, cy) \<in> set centres.
          cx - mm size' \<le> mm w \<and> cy - mm size' * sqrt 3 / 2 \<le> mm h
          \<and> (\<exists>i j. cx = real i * (mm size' * 2 * 0.75)
                   \<and> cy = row_offset_of (mm size' * sqrt 3) i + real j * (mm size' * sqrt 3)))
    \<and> (\<forall>i j. real i * (mm size' * 2 * 0.75) - mm size' < mm w
             \<and> row_offset_of (mm size' * sqrt 3) i + real j * (mm size' * sqrt 3)
                 - mm size' * sqrt 3 / 2 < mm h
          \<longrightarrow> (real i * (mm size' * 2 * 0.75),
               row_offset_of (mm size' * sqrt 3) i + real j * (mm size' * sqrt 3))
              \<in> set centres)"
proof -
  let ?s = "mm size'"
  let ?hh = "?s * sqrt 3"
  let ?cs = "?s * 2 * 0.75"
  let ?X = "\<lambda>i. real i * ?cs"
  let ?Y = "\<lambda>i j. row_offset_of ?hh i + real j * ?hh"
  let ?nr = "\<lambda>i. loop_count (row_offset_of ?hh i) (mm h + ?hh / 2) ?hh"
  let ?nc = "loop_count 0 (mm w + ?s) ?cs"
  let ?centres = "concat (map (\<lambda>i. map (\<lambda>j. (?X i, ?Y i j)) [0..<?nr i]) [0..<?nc])"
  let ?hexagon = "\<lambda>(cx, cy).
                    [M (cx + ?s) cy,
                     L (cx + ?s / 2) (cy + ?s * sqrt 3 / 2),
                     L (cx - ?s / 2) (cy + ?s * sqrt 3 / 2),
                     L (cx - ?s) cy,
                     L (cx - ?s / 2) (cy - ?s * sqrt 3 / 2),
                     L (cx + ?s / 2) (cy - ?s * sqrt 3 / 2),
                     Z]"
  have s: "0 < ?s" using assms by (rule mm_pos)
  have hh: "0 < ?hh" and cs: "0 < ?cs" using s by simp_all
  have mem: "set ?centres = {(?X i, ?Y i j) | i j. i < ?nc \<and> j < ?nr i}"
    by (rule set_concat_rows)
  have hc: "\<And>cx cy. hex_cmds cx cy ?s = ?hexagon (cx, cy)"
    by (simp add: hex_cmds_def hex_pts_def upt_6 Let_def cos_sin_radians_0 sin_radians_60
        cos_radians_60 cos_sin_radians_120 cos_sin_radians_180 cos_sin_radians_240
        cos_sin_radians_300)
  have path: "draw_hex w h size' line_width color =
      Some [Path (concat (map ?hexagon ?centres)) color (mm line_width) ''none'']"
    unfolding draw_hex_closed [OF assms] hc
    using concat_map_concat_map [of ?hexagon "\<lambda>i j. (?X i, ?Y i j)" "\<lambda>i. [0..<?nr i]" "[0..<?nc]"]
    by simp
  have sound: "\<forall>(cx, cy) \<in> set ?centres.
          cx - ?s \<le> mm w \<and> cy - ?s * sqrt 3 / 2 \<le> mm h
          \<and> (\<exists>i j. cx = ?X i \<and> cy = ?Y i j)"
  proof (clarify, intro conjI)
    fix cx cy
    assume "(cx, cy) \<in> set ?centres"
    then obtain i j where i: "i < ?nc" and j: "j < ?nr i" and c: "cx = ?X i" "cy = ?Y i j"
      unfolding mem by blast
    have "0 + real i * ?cs \<le> mm w + ?s"
      using cs i by (rule loop_count_below)
    then show "cx - ?s \<le> mm w" using c(1) by simp
    have "row_offset_of ?hh i + real j * ?hh \<le> mm h + ?hh / 2"
      using hh j by (rule loop_count_below)
    then show "cy - ?s * sqrt 3 / 2 \<le> mm h" using c(2) by simp
    show "\<exists>i j. cx = ?X i \<and> cy = ?Y i j" using c by blast
  qed
  have complete: "\<forall>i j. ?X i - ?s < mm w \<and> ?Y i j - ?s * sqrt 3 / 2 < mm h
          \<longrightarrow> (?X i, ?Y i j) \<in> set ?centres"
  proof (intro allI impI)
    fix i j
    assume a: "?X i - ?s < mm w \<and> ?Y i j - ?s * sqrt 3 / 2 < mm h"
    have "0 + real i * ?cs \<le> mm w + ?s" using a by simp
    then have i: "i < ?nc" using cs by (intro loop_count_mem)
    have "row_offset_of ?hh i + real j * ?hh \<le> mm h + ?hh / 2" using a by simp
    then have j: "j < ?nr i" using hh by (intro loop_count_mem)
    show "(?X i, ?Y i j) \<in> set ?centres"
      unfolding mem using i j by blast
  qed
  from path sound complete show ?thesis by blast
qed


theorem draw_hex_single_path_witness:
  "draw_hex 0 12.7 12.7 0.3 ''#cccccc'' =
     Some [Path [M 36 0,
                 L 18 (18 * sqrt 3),
                 L (- 18) (18 * sqrt 3),
                 L (- 36) 0,
                 L (- 18) (- (18 * sqrt 3)),
                 L 18 (- (18 * sqrt 3)),
                 Z,
                 M 36 (36 * sqrt 3),
                 L 18 (54 * sqrt 3),
                 L (- 18) (54 * sqrt 3),
                 L (- 36) (36 * sqrt 3),
                 L (- 18) (18 * sqrt 3),
                 L 18 (18 * sqrt 3),
                 Z] ''#cccccc'' (108 / 127) ''none'']
   \<and> (\<exists>centres.
         draw_hex 0 12.7 12.7 0.3 ''#cccccc'' =
           Some [Path (concat (map (\<lambda>(cx, cy).
                    [M (cx + 36) cy,
                     L (cx + 36 / 2) (cy + 36 * sqrt 3 / 2),
                     L (cx - 36 / 2) (cy + 36 * sqrt 3 / 2),
                     L (cx - 36) cy,
                     L (cx - 36 / 2) (cy - 36 * sqrt 3 / 2),
                     L (cx + 36 / 2) (cy - 36 * sqrt 3 / 2),
                     Z]) centres))
              ''#cccccc'' (mm 0.3) ''none'']
         \<and> (0, 0) \<in> set centres \<and> (0, 36 * sqrt 3) \<in> set centres)"
proof -
  have p: "(0::real) < 12.7" by simp
  have m: "mm 12.7 = 36" "mm 0 = 0" by (simp_all add: mm_def MM_PER_PT_def)
  note t = draw_hex_single_path [OF p, of 0 "12.7" "0.3" "''#cccccc''", unfolded m]
  then obtain centres where
    path: "draw_hex 0 12.7 12.7 0.3 ''#cccccc'' =
           Some [Path (concat (map (\<lambda>(cx, cy).
                    [M (cx + 36) cy,
                     L (cx + 36 / 2) (cy + 36 * sqrt 3 / 2),
                     L (cx - 36 / 2) (cy + 36 * sqrt 3 / 2),
                     L (cx - 36) cy,
                     L (cx - 36 / 2) (cy - 36 * sqrt 3 / 2),
                     L (cx + 36 / 2) (cy - 36 * sqrt 3 / 2),
                     Z]) centres))
              ''#cccccc'' (mm 0.3) ''none'']"
    and complete: "\<forall>i j. real i * (36 * 2 * 0.75) - 36 < 0
             \<and> row_offset_of (36 * sqrt 3) i + real j * (36 * sqrt 3) - 36 * sqrt 3 / 2 < 36
          \<longrightarrow> (real i * (36 * 2 * 0.75),
               row_offset_of (36 * sqrt 3) i + real j * (36 * sqrt 3)) \<in> set centres"
    by blast
  have lt: "36 * sqrt 3 - 36 * sqrt 3 / 2 < 36"
    using sqrt3_bounds(2) by linarith
  have lt0: "- (18 * sqrt 3) < 36"
    using sqrt3_bounds(1) by linarith
  have c0: "(0, 0) \<in> set centres"
    using spec [OF spec [OF complete, of 0], of 0] lt0 by (simp add: row_offset_of_def)
  have c1: "(0, 36 * sqrt 3) \<in> set centres"
    using spec [OF spec [OF complete, of 0], of 1] lt by (simp add: row_offset_of_def)
  have c: "loop_count 0 (36::real) 54 = 1"
    by (rule loop_count_1) simp_all
  have r: "loop_count 0 (36 + 18 * sqrt 3) (36 * sqrt 3) = 2"
    using sqrt3_bounds by (intro loop_count_2; linarith)
  have e: "draw_hex 0 12.7 12.7 0.3 ''#cccccc'' =
     Some [Path [M 36 0,
                 L 18 (18 * sqrt 3),
                 L (- 18) (18 * sqrt 3),
                 L (- 36) 0,
                 L (- 18) (- (18 * sqrt 3)),
                 L 18 (- (18 * sqrt 3)),
                 Z,
                 M 36 (36 * sqrt 3),
                 L 18 (54 * sqrt 3),
                 L (- 18) (54 * sqrt 3),
                 L (- 36) (36 * sqrt 3),
                 L (- 18) (18 * sqrt 3),
                 L 18 (18 * sqrt 3),
                 Z] ''#cccccc'' (108 / 127) ''none'']"
    using c r
    by (simp add: draw_hex_closed mm_def MM_PER_PT_def row_offset_of_def upt_2 hex_cmds_def
        hex_pts_def upt_6 Let_def cos_sin_radians_0 sin_radians_60 cos_radians_60
        cos_sin_radians_120 cos_sin_radians_180 cos_sin_radians_240 cos_sin_radians_300)
  from e path c0 c1 show ?thesis by blast
qed

section \<open>Panel composition\<close>

text \<open>
  C4. \<^verbatim>\<open>make_panel\<close> runs the generator on the inner area
  \<open>(panel_w_mm - 2 * margin_mm, panel_h_mm - 2 * margin_mm)\<close>, in millimetres, and returns
  nothing if the generator does not. Otherwise it returns one group, translated by the
  page offset plus the margin converted to document units at 72 units per 25.4 mm; the
  group holds the definition of a clip rectangle at the origin whose size is the inner
  area at the same ratio, and, clipped by it, the generated primitives. On the page the
  clip rectangle therefore reaches from the panel's offset plus the margin to the panel's
  far edge less the margin, on each axis.
\<close>

theorem make_panel_composition:
  "make_panel draw_fn panel_w_mm panel_h_mm offset_x offset_y margin_mm size' line_width color
       clip_id =
     (case draw_fn (panel_w_mm - 2 * margin_mm) (panel_h_mm - 2 * margin_mm) size' line_width
             color of
        None \<Rightarrow> None
      | Some pattern_elements \<Rightarrow>
          Some [G (Some [Translate (offset_x + margin_mm * 72 / 25.4)
                                   (offset_y + margin_mm * 72 / 25.4)]) None
                  [Defs [ClipPath clip_id
                           [Rect 0 0 ((panel_w_mm - 2 * margin_mm) * 72 / 25.4)
                                     ((panel_h_mm - 2 * margin_mm) * 72 / 25.4) None]],
                   G None (Some (''url(#'' @ clip_id @ '')'')) pattern_elements]])
   \<and> (offset_x + margin_mm * 72 / 25.4) + (panel_w_mm - 2 * margin_mm) * 72 / 25.4
       = offset_x + mm panel_w_mm - mm margin_mm
   \<and> (offset_y + margin_mm * 72 / 25.4) + (panel_h_mm - 2 * margin_mm) * 72 / 25.4
       = offset_y + mm panel_h_mm - mm margin_mm"
proof (intro conjI)
  show "make_panel draw_fn panel_w_mm panel_h_mm offset_x offset_y margin_mm size' line_width
       color clip_id =
     (case draw_fn (panel_w_mm - 2 * margin_mm) (panel_h_mm - 2 * margin_mm) size' line_width
             color of
        None \<Rightarrow> None
      | Some pattern_elements \<Rightarrow>
          Some [G (Some [Translate (offset_x + margin_mm * 72 / 25.4)
                                   (offset_y + margin_mm * 72 / 25.4)]) None
                  [Defs [ClipPath clip_id
                           [Rect 0 0 ((panel_w_mm - 2 * margin_mm) * 72 / 25.4)
                                     ((panel_h_mm - 2 * margin_mm) * 72 / 25.4) None]],
                   G None (Some (''url(#'' @ clip_id @ '')'')) pattern_elements]])"
    by (cases "draw_fn (panel_w_mm - 2 * margin_mm) (panel_h_mm - 2 * margin_mm) size'
                 line_width color") (simp_all add: make_panel_def Let_def mm_def MM_PER_PT_def)
  show "(offset_x + margin_mm * 72 / 25.4) + (panel_w_mm - 2 * margin_mm) * 72 / 25.4
       = offset_x + mm panel_w_mm - mm margin_mm"
    by (simp add: mm_def MM_PER_PT_def field_simps)
  show "(offset_y + margin_mm * 72 / 25.4) + (panel_h_mm - 2 * margin_mm) * 72 / 25.4
       = offset_y + mm panel_h_mm - mm margin_mm"
    by (simp add: mm_def MM_PER_PT_def field_simps)
qed

theorem make_panel_composition_witness:
  "make_panel draw_lined 107.95 279.4 306 0 12.7 127 0.3 ''#cccccc'' ''clip-1'' =
     Some [G (Some [Translate 342 36]) None
             [Defs [ClipPath ''clip-1'' [Rect 0 0 234 720 None]],
              G None (Some ''url(#clip-1)'')
                [Line 0 360 234 360 ''#cccccc'' (108 / 127) None,
                 Line 0 720 234 720 ''#cccccc'' (108 / 127) None]]]
   \<and> (342 :: real) + 234 = 306 + mm 107.95 - mm 12.7"
proof -
  have c: "loop_count 360 (72001 / 100) 360 = 2"
    by (simp add: loop_count_def)
  have l: "draw_lined (107.95 - 2 * 12.7) (279.4 - 2 * 12.7) 127 0.3 ''#cccccc'' =
      Some [Line 0 360 234 360 ''#cccccc'' (108 / 127) None,
            Line 0 720 234 720 ''#cccccc'' (108 / 127) None]"
    using c by (simp add: draw_lined_closed mm_def MM_PER_PT_def upt_2)
  show ?thesis
    using l make_panel_composition
      [where draw_fn = draw_lined and panel_w_mm = "107.95" and panel_h_mm = "279.4"
         and offset_x = 306 and offset_y = 0 and margin_mm = "12.7" and size' = 127
         and line_width = "0.3" and color = "''#cccccc''" and clip_id = "''clip-1''"]
    by (simp add: mm_def MM_PER_PT_def)
qed

end
